theory Spec2Isabelle
  imports Complex_Main "HOL-Library.Word" "HOL-Library.Sublist"
begin

section \<open>JavaScript numbers and typed arrays\<close>

text \<open>
  The PDF service works on JavaScript numbers and on byte buffers
  (\<^verbatim>\<open>Uint8Array\<close>, \<^verbatim>\<open>Uint8ClampedArray\<close>). A byte is an \<open>8 word\<close>. A JavaScript
  number is modelled by an exact real number: the arithmetic of the source is carried
  out without rounding error, and the two places where a double can hold a value that
  is not a number (a read past the end of a buffer, a division by a zero box height)
  are separate branches of the definitions below.
\<close>

type_synonym byte = "8 word"

definition byteNum :: "byte \<Rightarrow> real" where
  "byteNum b = real (unat b)"

text \<open>\<^verbatim>\<open>Math.round\<close>: the nearest integer, a tie going up.\<close>

definition mathRound :: "real \<Rightarrow> int" where
  "mathRound x = \<lfloor>x + 1 / 2\<rfloor>"

text \<open>A store into a \<^verbatim>\<open>Uint8ClampedArray\<close> of a number that is already integral.\<close>

definition toUint8Clamped :: "int \<Rightarrow> byte" where
  "toUint8Clamped v = (if v < 0 then 0 else if 255 < v then 255 else word_of_int v)"

section \<open>CMYK to RGBA conversion\<close>

text \<open>
  One iteration of the loop of \<^verbatim>\<open>convertCMYKtoRGB\<close>: four source bytes give the four
  bytes written at \<^verbatim>\<open>rgbData[j .. j + 3]\<close>.
\<close>

definition cmykPixel :: "byte \<Rightarrow> byte \<Rightarrow> byte \<Rightarrow> byte \<Rightarrow> byte list" where
  "cmykPixel cb mb yb kb =
     (let c = byteNum cb / 255;
          m = byteNum mb / 255;
          y = byteNum yb / 255;
          k = byteNum kb / 255;
          r = 255 * (1 - c) * (1 - k);
          g = 255 * (1 - m) * (1 - k);
          b = 255 * (1 - y) * (1 - k)
      in [toUint8Clamped (mathRound r), toUint8Clamped (mathRound g),
          toUint8Clamped (mathRound b), 255])"

text \<open>
  The loop \<^verbatim>\<open>for (i = 0, j = 0; i < cmykData.length; i += 4, j += 4)\<close>. The output
  buffer has \<^verbatim>\<open>(cmykData.length / 4) * 4\<close> bytes, which is the input length. When the
  input length is not a multiple of four, the last iteration reads \<^verbatim>\<open>cmykData[i + 3]\<close>
  past the end: \<open>k\<close> is not a number, so are \<open>r\<close>, \<open>g\<close> and \<open>b\<close>, the clamped array
  stores 0 for each of them, and the store of the alpha byte at \<^verbatim>\<open>j + 3\<close> falls outside
  the output buffer and is dropped.
\<close>

fun convertCMYKtoRGB :: "byte list \<Rightarrow> byte list" where
  "convertCMYKtoRGB (cb # mb # yb # kb # rest) = cmykPixel cb mb yb kb @ convertCMYKtoRGB rest"
| "convertCMYKtoRGB partial = replicate (length partial) 0"

section \<open>Operator lists and text suppression\<close>

text \<open>
  An operator list of PDF.js is a pair of parallel arrays: \<^verbatim>\<open>fnArray\<close> holds the operator
  codes, \<^verbatim>\<open>argsArray\<close> the operand arrays, an entry of which is \<^verbatim>\<open>null\<close> for an
  operator without operands (\<open>None\<close> here).
\<close>

datatype operand = Name string | Number real | Other nat

record opList =
  fnArray :: "nat list"
  argsArray :: "operand list option list"

text \<open>
  The table \<^verbatim>\<open>pdfjsLib.OPS\<close> of operator codes belongs to the library, not to this
  repository: it is a parameter, with the members the source reads.
\<close>

record ops =
  showText :: nat
  showSpacedText :: nat
  nextLineShowText :: nat
  nextLineSetSpacingShowText :: nat
  beginText :: nat
  endText :: nat
  setCharSpacing :: nat
  setWordSpacing :: nat
  paintImageXObject :: nat

definition textOps :: "ops \<Rightarrow> nat set" where
  "textOps OPS =
     {showText OPS, showSpacedText OPS, nextLineShowText OPS, nextLineSetSpacingShowText OPS,
      beginText OPS, endText OPS, setCharSpacing OPS, setWordSpacing OPS}"

text \<open>
  An assignment \<^verbatim>\<open>xs[i] = v\<close> to a JavaScript array: past the end, the array grows and
  the skipped positions are holes, which read as \<^verbatim>\<open>undefined\<close>.
\<close>

definition jsArraySet :: "'a option list \<Rightarrow> nat \<Rightarrow> 'a option \<Rightarrow> 'a option list" where
  "jsArraySet xs i v =
     (if i < length xs then xs[i := v] else xs @ replicate (i - length xs) None @ [v])"

text \<open>
  The text suppression of \<^verbatim>\<open>renderHighQualityCrop\<close>: nothing happens when the operator
  table is missing; otherwise the loop over \<^verbatim>\<open>i < opList.fnArray.length\<close> assigns an
  empty array to \<^verbatim>\<open>opList.argsArray[i]\<close> at every text operator.
\<close>

definition suppressText :: "ops option \<Rightarrow> opList \<Rightarrow> opList" where
  "suppressText OPS ol =
     (case OPS of
        None \<Rightarrow> ol
      | Some tbl \<Rightarrow>
          ol\<lparr>argsArray :=
               fold (\<lambda>i args. if fnArray ol ! i \<in> textOps tbl then jsArraySet args i (Some []) else args)
                 [0..<length (fnArray ol)] (argsArray ol)\<rparr>)"

section \<open>Documents, pages and the browser\<close>

text \<open>
  Operator lists are objects: the store maps a reference to the operator list it
  denotes, and \<^verbatim>\<open>page.getOperatorList()\<close> resolves to a reference.
\<close>

type_synonym ref = nat

type_synonym store = "ref \<Rightarrow> opList option"

record imgObj =
  width :: nat
  height :: nat
  kind :: nat
  data :: "byte list"

text \<open>
  A page: the size of its viewport at scale 1, the reference its operator list resolves
  to (\<open>None\<close> when \<^verbatim>\<open>getOperatorList\<close> rejects), and its two object tables.
\<close>

record pageProxy =
  viewportWidth :: real
  viewportHeight :: real
  operatorList :: "ref option"
  commonObjs :: "operand \<Rightarrow> imgObj option"
  objs :: "operand \<Rightarrow> imgObj option"

record pdfDocument =
  pages :: "pageProxy list"

datatype jsError = PageError | OperatorListError | TypeError | RangeError | RenderError string

datatype 'a outcome = Returned 'a | Threw jsError

text \<open>\<^verbatim>\<open>pdf.getPage(n)\<close>: pages are numbered from 1; any other number rejects.\<close>

definition getPage :: "pdfDocument \<Rightarrow> nat \<Rightarrow> pageProxy option" where
  "getPage pdf pageNumber =
     (if 1 \<le> pageNumber \<and> pageNumber \<le> length (pages pdf)
      then Some (pages pdf ! (pageNumber - 1)) else None)"

definition getOperatorList :: "store \<Rightarrow> pageProxy \<Rightarrow> (ref \<times> opList) option" where
  "getOperatorList st pg =
     (case operatorList pg of
        None \<Rightarrow> None
      | Some r \<Rightarrow> (case st r of None \<Rightarrow> None | Some ol \<Rightarrow> Some (r, ol)))"

text \<open>A canvas: its width, its height and its pixels (RGBA bytes).\<close>

datatype canvas = Canvas nat nat "byte list"

text \<open>
  \<^verbatim>\<open>canvas.toDataURL('image/png')\<close>: a lossless encoding of the canvas, written as the
  canvas itself; a canvas without pixels gives the string \<^verbatim>\<open>data:,\<close>.
\<close>

datatype dataURI = EmptyData | PNG nat nat "byte list"

fun toDataURL :: "canvas \<Rightarrow> dataURI" where
  "toDataURL (Canvas w h px) = (if w = 0 \<or> h = 0 then EmptyData else PNG w h px)"

text \<open>
  An assignment to \<^verbatim>\<open>canvas.width\<close> or \<^verbatim>\<open>canvas.height\<close> (an \<^verbatim>\<open>unsigned long\<close>
  attribute): the number is reduced modulo \<open>2^32\<close>, and a value above \<open>2^31 - 1\<close> gives
  the attribute's default.
\<close>

definition setCanvasDim :: "nat \<Rightarrow> int \<Rightarrow> nat" where
  "setCanvasDim dflt v = (let u = v mod 2 ^ 32 in if u \<le> 2147483647 then nat u else dflt)"

text \<open>What a render request passes to \<^verbatim>\<open>page.render\<close>.\<close>

record renderRequest =
  rqScale :: real
  rqTranslateX :: real
  rqTranslateY :: real
  rqWidth :: nat
  rqHeight :: nat

text \<open>
  The browser and the library, as far as the two functions below depend on them: the
  operator table, whether a canvas yields a 2D context (for the crop, and for the
  canvas made at operation \<open>i\<close> of the extraction scan), and the pixels that
  \<^verbatim>\<open>page.render\<close> paints, or the error it rejects with.
\<close>

record world =
  pdfjsOPS :: "ops option"
  cropContext :: bool
  extractContext :: "nat \<Rightarrow> bool"
  pageRender :: "store \<Rightarrow> pageProxy \<Rightarrow> renderRequest \<Rightarrow> jsError + byte list"

datatype effect = CanvasCreated | CanvasResized nat nat | PagePainted renderRequest | Encoded

section \<open>The text-suppressed crop\<close>

text \<open>A bounding box \<^verbatim>\<open>[ymin, xmin, ymax, xmax]\<close> of four numbers.\<close>

type_synonym box = "real \<times> real \<times> real \<times> real"

definition clamp1000 :: "real \<Rightarrow> real" where
  "clamp1000 v = max 0 (min 1000 v)"

definition MAX_CANVAS_DIM :: real where
  "MAX_CANVAS_DIM = 4096"

text \<open>The safety cap: the two \<^verbatim>\<open>if\<close> statements that lower \<^verbatim>\<open>finalScale\<close>.\<close>

definition capScale :: "real \<Rightarrow> real \<Rightarrow> real \<Rightarrow> real" where
  "capScale cropWidth cropHeight scale =
     (let finalScale = scale;
          finalScale = (if cropWidth * finalScale > MAX_CANVAS_DIM
                        then MAX_CANVAS_DIM / cropWidth else finalScale);
          finalScale = (if cropHeight * finalScale > MAX_CANVAS_DIM
                        then MAX_CANVAS_DIM / cropHeight else finalScale)
      in finalScale)"

definition cropWidthOf :: "pageProxy \<Rightarrow> box \<Rightarrow> real" where
  "cropWidthOf pg box_2d =
     (case box_2d of (b0, b1, b2, b3) \<Rightarrow>
        ((clamp1000 b3 - clamp1000 b1) / 1000) * viewportWidth pg)"

definition cropHeightOf :: "pageProxy \<Rightarrow> box \<Rightarrow> real" where
  "cropHeightOf pg box_2d =
     (case box_2d of (b0, b1, b2, b3) \<Rightarrow>
        ((clamp1000 b2 - clamp1000 b0) / 1000) * viewportHeight pg)"

text \<open>
  The scale, the translation and the canvas size that the crop hands to \<^verbatim>\<open>page.render\<close>.
  The canvas is created with the default size 300 by 150.
\<close>

definition cropRequest :: "pageProxy \<Rightarrow> box \<Rightarrow> real \<Rightarrow> renderRequest" where
  "cropRequest pg box_2d scale =
     (case box_2d of (b0, b1, b2, b3) \<Rightarrow>
        let ymin = clamp1000 b0;
            xmin = clamp1000 b1;
            cropX = (xmin / 1000) * viewportWidth pg;
            cropY = (ymin / 1000) * viewportHeight pg;
            cropWidth = cropWidthOf pg box_2d;
            cropHeight = cropHeightOf pg box_2d;
            finalScale = capScale cropWidth cropHeight scale
        in \<lparr>rqScale = finalScale,
            rqTranslateX = - cropX * finalScale,
            rqTranslateY = - cropY * finalScale,
            rqWidth = setCanvasDim 300 \<lfloor>cropWidth * finalScale\<rfloor>,
            rqHeight = setCanvasDim 150 \<lfloor>cropHeight * finalScale\<rfloor>\<rparr>)"

text \<open>
  The body of the \<^verbatim>\<open>try\<close> block of \<^verbatim>\<open>renderHighQualityCrop\<close>. It gives what the block
  returns or throws, the store it leaves and the effects it had on canvases, in order.
\<close>

definition cropBody ::
  "world \<Rightarrow> store \<Rightarrow> pdfDocument \<Rightarrow> nat \<Rightarrow> box \<Rightarrow> real
     \<Rightarrow> dataURI option outcome \<times> store \<times> effect list" where
  "cropBody w st pdf pageNumber box_2d scale =
     (case getPage pdf pageNumber of
        None \<Rightarrow> (Threw PageError, st, [])
      | Some pg \<Rightarrow>
          if cropWidthOf pg box_2d \<le> 0 \<or> cropHeightOf pg box_2d \<le> 0 then (Returned None, st, [])
          else if \<not> cropContext w then (Returned None, st, [CanvasCreated])
          else
            let rq = cropRequest pg box_2d scale;
                sized = [CanvasCreated, CanvasResized (rqWidth rq) 150,
                         CanvasResized (rqWidth rq) (rqHeight rq)]
            in (case getOperatorList st pg of
                  None \<Rightarrow> (Threw OperatorListError, st, sized)
                | Some (r, ol) \<Rightarrow>
                    let st' = st(r \<mapsto> suppressText (pdfjsOPS w) ol)
                    in (case pageRender w st' pg rq of
                          Inl e \<Rightarrow> (Threw e, st', sized)
                        | Inr px \<Rightarrow>
                            (Returned (Some (toDataURL (Canvas (rqWidth rq) (rqHeight rq) px))), st',
                             sized @ [PagePainted rq, Encoded,
                                      CanvasResized 1 (rqHeight rq), CanvasResized 1 1]))))"

text \<open>
  \<^verbatim>\<open>renderHighQualityCrop\<close>: the \<^verbatim>\<open>catch\<close> clause turns whatever the block throws into
  \<^verbatim>\<open>null\<close>. The \<^verbatim>\<open>scale\<close> argument defaults to 4.
\<close>

definition renderHighQualityCrop ::
  "world \<Rightarrow> store \<Rightarrow> pdfDocument \<Rightarrow> nat \<Rightarrow> box \<Rightarrow> real option
     \<Rightarrow> dataURI option outcome \<times> store \<times> effect list" where
  "renderHighQualityCrop w st pdf pageNumber box_2d scale =
     (case cropBody w st pdf pageNumber box_2d (case scale of None \<Rightarrow> 4 | Some s \<Rightarrow> s) of
        (Threw e, st', fx) \<Rightarrow> (Returned None, st', fx)
      | (Returned res, st', fx) \<Rightarrow> (Returned res, st', fx))"

section \<open>Extraction of an embedded image\<close>

text \<open>
  Stores into a fresh \<^verbatim>\<open>ImageData\<close> buffer of \<open>n\<close> zero bytes: a store past the end of
  a typed array is dropped.
\<close>

definition writeInto :: "nat \<Rightarrow> byte list \<Rightarrow> byte list" where
  "writeInto n xs = take n xs @ replicate (n - length xs) 0"

text \<open>
  The loop \<^verbatim>\<open>for (p = 0, d = 0; p < data.length; p += 3, d += 4)\<close> that widens RGB to
  RGBA. A read past the end of \<^verbatim>\<open>data\<close> is \<^verbatim>\<open>undefined\<close>, stored as 0.
\<close>

fun rgbToRgba :: "byte list \<Rightarrow> byte list" where
  "rgbToRgba (r # g # b # rest) = [r, g, b, 255] @ rgbToRgba rest"
| "rgbToRgba [r, g] = [r, g, 0, 255]"
| "rgbToRgba [r] = [r, 0, 0, 255]"
| "rgbToRgba [] = []"

text \<open>
  The image an image-paint operation names: \<^verbatim>\<open>commonObjs\<close> is asked first, then
  \<^verbatim>\<open>objs\<close>. The name is \<^verbatim>\<open>undefined\<close> (\<open>None\<close>) when the operand array is empty, and
  then neither table has it.
\<close>

definition lookupImage :: "pageProxy \<Rightarrow> operand option \<Rightarrow> imgObj option" where
  "lookupImage pg imgName =
     (case imgName of
        None \<Rightarrow> None
      | Some nm \<Rightarrow> (case commonObjs pg nm of Some img \<Rightarrow> Some img | None \<Rightarrow> objs pg nm))"

text \<open>A read \<^verbatim>\<open>xs[i]\<close> of a JavaScript array: \<^verbatim>\<open>undefined\<close> past the end.\<close>

definition argsAt :: "'a option list \<Rightarrow> nat \<Rightarrow> 'a option" where
  "argsAt xs i = (if i < length xs then xs ! i else None)"

definition aspectDiffOf :: "imgObj \<Rightarrow> real \<Rightarrow> real \<Rightarrow> real" where
  "aspectDiffOf img boxWidth boxHeight =
     (let imgAspect = real (width img) / real (height img);
          boxAspect = boxWidth / boxHeight
      in \<bar>imgAspect - boxAspect\<bar>)"

definition scoreOf :: "imgObj \<Rightarrow> real \<Rightarrow> real \<Rightarrow> real" where
  "scoreOf img boxWidth boxHeight =
     (let resolution = width img * height img;
          score = 0;
          score = score + (1 - aspectDiffOf img boxWidth boxHeight) * 100;
          score = (if resolution > 1000000 then score + 50 else score)
      in score)"

text \<open>
  The statements after \<^verbatim>\<open>bestScore = score\<close>: the candidate is drawn on a canvas of its
  own size and encoded, and the result becomes \<^verbatim>\<open>bestImage\<close>; the two \<^verbatim>\<open>continue\<close>
  statements leave \<^verbatim>\<open>bestImage\<close> as it was. \<^verbatim>\<open>imgData.data.set\<close> throws a
  \<^verbatim>\<open>RangeError\<close> when its source is longer than the buffer.
\<close>

definition drawCandidate :: "world \<Rightarrow> nat \<Rightarrow> imgObj \<Rightarrow> dataURI option \<Rightarrow> dataURI option outcome" where
  "drawCandidate w i img bestImage =
     (if \<not> extractContext w i then Returned bestImage
      else
        let n = width img * height img * 4
        in if kind img = 4 then
             (let rgbData = convertCMYKtoRGB (data img)
              in if length rgbData > n then Threw RangeError
                 else Returned (Some (toDataURL (Canvas (width img) (height img) (writeInto n rgbData)))))
           else if length (data img) = width img * height img * 3 then
             Returned (Some (toDataURL (Canvas (width img) (height img)
                                          (writeInto n (rgbToRgba (data img))))))
           else if length (data img) = width img * height img * 4 then
             Returned (Some (toDataURL (Canvas (width img) (height img) (writeInto n (data img)))))
           else Returned bestImage)"

text \<open>
  One iteration of the scan, on the pair \<^verbatim>\<open>(bestImage, bestScore)\<close>. With a box of
  height 0 the quotient \<^verbatim>\<open>boxAspect\<close> is infinite or not a number: either
  \<^verbatim>\<open>aspectDiff > 0.5\<close> holds and the candidate is passed over, or every comparison with
  the score is false; in both cases the iteration changes nothing.
\<close>

type_synonym scanState = "dataURI option \<times> real"

definition scanStep ::
  "world \<Rightarrow> ops \<Rightarrow> pageProxy \<Rightarrow> opList \<Rightarrow> real \<Rightarrow> real \<Rightarrow> nat \<Rightarrow> scanState \<Rightarrow> scanState outcome" where
  "scanStep w tbl pg ol boxWidth boxHeight i s =
     (case s of (bestImage, bestScore) \<Rightarrow>
        if fnArray ol ! i \<noteq> paintImageXObject tbl then Returned s
        else
          (case argsAt (argsArray ol) i of
             None \<Rightarrow> Threw TypeError
           | Some args \<Rightarrow>
               (case lookupImage pg (case args of [] \<Rightarrow> None | a # _ \<Rightarrow> Some a) of
                  None \<Rightarrow> Returned s
                | Some img \<Rightarrow>
                    if width img > 100 \<and> height img > 100 then
                      if boxHeight = 0 then Returned s
                      else if aspectDiffOf img boxWidth boxHeight > 0.5 then Returned s
                      else
                        let score = scoreOf img boxWidth boxHeight
                        in if score > bestScore then
                             (case drawCandidate w i img bestImage of
                                Threw e \<Rightarrow> Threw e
                              | Returned bi \<Rightarrow> Returned (bi, score))
                           else Returned s
                    else Returned s)))"

fun scanLoop :: "(nat \<Rightarrow> scanState \<Rightarrow> scanState outcome) \<Rightarrow> nat list \<Rightarrow> scanState \<Rightarrow> scanState outcome" where
  "scanLoop step [] s = Returned s"
| "scanLoop step (i # rest) s =
     (case step i s of Threw e \<Rightarrow> Threw e | Returned s' \<Rightarrow> scanLoop step rest s')"

text \<open>
  The \<^verbatim>\<open>for\<close> loop over the operations, from \<^verbatim>\<open>bestImage = null\<close> and
  \<^verbatim>\<open>bestScore = -1\<close>. Without an operator table the first iteration throws a
  \<^verbatim>\<open>TypeError\<close> at \<^verbatim>\<open>OPS.paintImageXObject\<close>.
\<close>

definition scanOps :: "world \<Rightarrow> pageProxy \<Rightarrow> opList \<Rightarrow> real \<Rightarrow> real \<Rightarrow> scanState outcome" where
  "scanOps w pg ol boxWidth boxHeight =
     (case pdfjsOPS w of
        None \<Rightarrow> (if fnArray ol = [] then Returned (None, - 1) else Threw TypeError)
      | Some tbl \<Rightarrow>
          scanLoop (scanStep w tbl pg ol boxWidth boxHeight) [0..<length (fnArray ol)] (None, - 1))"

definition extractBody :: "world \<Rightarrow> store \<Rightarrow> pdfDocument \<Rightarrow> nat \<Rightarrow> box \<Rightarrow> dataURI option outcome" where
  "extractBody w st pdf pageNumber box_2d =
     (case getPage pdf pageNumber of
        None \<Rightarrow> Threw PageError
      | Some pg \<Rightarrow>
          (case getOperatorList st pg of
             None \<Rightarrow> Threw OperatorListError
           | Some (r, ol) \<Rightarrow>
               (case box_2d of (ymin, xmin, ymax, xmax) \<Rightarrow>
                  let boxWidth = xmax - xmin;
                      boxHeight = ymax - ymin
                  in (case scanOps w pg ol boxWidth boxHeight of
                        Threw e \<Rightarrow> Threw e
                      | Returned (bestImage, bestScore) \<Rightarrow>
                          if bestScore < 70 then Returned None else Returned bestImage))))"

text \<open>\<^verbatim>\<open>extractBestImageForBox\<close>: the \<^verbatim>\<open>catch\<close> clause returns \<^verbatim>\<open>null\<close>.\<close>

definition extractBestImageForBox ::
  "world \<Rightarrow> store \<Rightarrow> pdfDocument \<Rightarrow> nat \<Rightarrow> box \<Rightarrow> dataURI option outcome" where
  "extractBestImageForBox w st pdf pageNumber box_2d =
     (case extractBody w st pdf pageNumber box_2d of
        Threw e \<Rightarrow> Returned None
      | Returned res \<Rightarrow> Returned res)"

section \<open>The recognition service\<close>

text \<open>\<^verbatim>\<open>s.includes(sub)\<close> on strings.\<close>

fun strIncludes :: "string \<Rightarrow> string \<Rightarrow> bool" where
  "strIncludes [] sub = (sub = [])"
| "strIncludes (c # cs) sub = (prefix sub (c # cs) \<or> strIncludes cs sub)"

text \<open>\<^verbatim>\<open>s.split(sep)[0]\<close> for a separator that is not empty.\<close>

fun splitHead :: "string \<Rightarrow> string \<Rightarrow> string" where
  "splitHead sep [] = []"
| "splitHead sep (c # cs) = (if prefix sep (c # cs) then [] else c # splitHead sep cs)"

text \<open>A number in a template string, for a page number.\<close>

fun showNat :: "nat \<Rightarrow> string" where
  "showNat n =
     (if n < 10 then [char_of (48 + n)] else showNat (n div 10) @ [char_of (48 + n mod 10)])"

declare showNat.simps [simp del]

record imageInfo =
  filename :: string
  page :: nat
  hash :: string
  base64 :: string

text \<open>
  A product record: the object the service recognised (kept as it came), with the
  origin and the page image that \<^verbatim>\<open>extractProductDataFromPage\<close> adds.
\<close>

record productData =
  product :: string
  origem_source_pdf :: string
  origem_page :: nat
  imagens :: "imageInfo list"

text \<open>
  A thrown value: an \<^verbatim>\<open>Error\<close> with its message, or another value, which has no
  \<^verbatim>\<open>message\<close> and is shown by \<^verbatim>\<open>String\<close>.
\<close>

datatype thrown = JsError string | JsOther string

text \<open>
  What \<^verbatim>\<open>ai.models.generateContent\<close> does with a request: it fails, or it answers, and
  then the answer is the list of objects read from the response text (empty when the
  text is empty or holds no JSON array).
\<close>

datatype apiReply = ApiFailed thrown | ApiAnswered "string list"

definition extractProductDataFromPage ::
  "(imageInfo \<Rightarrow> string \<Rightarrow> string \<Rightarrow> apiReply) \<Rightarrow> string \<Rightarrow> imageInfo \<Rightarrow> string \<Rightarrow> string
     \<Rightarrow> thrown + productData list" where
  "extractProductDataFromPage generateContent envKey info prompt apiKey0 =
     (let apiKey = (if apiKey0 = [] then envKey else apiKey0)
      in if apiKey = [] then
           Inl (JsError ''API Key is required. Please set it in the settings or as an environment variable.'')
         else if \<not> prefix ''data:image/jpeg;base64,'' (base64 info) then
           Inl (JsError ''Invalid base64 image format. Expected JPEG.'')
         else
           (case generateContent info prompt apiKey of
              ApiAnswered extractedData \<Rightarrow>
                Inr (map (\<lambda>p. \<lparr>product = p,
                                 origem_source_pdf = splitHead ''-page-'' (filename info),
                                 origem_page = page info,
                                 imagens = [info]\<rparr>) extractedData)
            | ApiFailed err \<Rightarrow>
                (let errorMessage = ''Failed to process page '' @ showNat (page info) @ ''.''
                 in case err of
                      JsError msg \<Rightarrow>
                        if strIncludes msg ''401'' \<or> strIncludes msg ''API key'' then
                          Inl (JsError ''AUTH_ERROR: The provided API Key is not valid.'')
                        else if strIncludes msg ''429'' then
                          Inl (JsError ''QUOTA_ERROR: API rate limit exceeded.'')
                        else Inl (JsError (errorMessage @ '' '' @ msg))
                    | JsOther shown \<Rightarrow> Inl (JsError (errorMessage @ '' '' @ shown)))))"

section \<open>The batch loop\<close>

record jsFile =
  name :: string
  bytes :: "byte list"

datatype apiKeyMode = DefaultKey | CustomKey

record apiKeyConfig =
  mode :: apiKeyMode
  customKey :: string

datatype processingStatus = StatusIdle | StatusProcessing | StatusSuccess | StatusError

text \<open>
  What a run does to the outside, in order: a document is loaded, a page is rendered, a
  page image is submitted to the recognition service (with what came back), a document
  is destroyed.
\<close>

datatype event =
    DocumentLoaded string
  | PageRendered string nat
  | PageSubmitted string nat "thrown + productData list"
  | DocumentDestroyed string

text \<open>
  The state of the component that the handler writes, with the local counter
  \<^verbatim>\<open>processedCount\<close> and the events of the run.
\<close>

record batchState =
  results :: "productData list"
  status :: processingStatus
  error :: "string option"
  progress :: "(nat \<times> nat \<times> string) option"
  apiKeyModalVisible :: bool
  processedCount :: nat
  events :: "event list"

text \<open>
  The surroundings of the handler: the translation function \<^verbatim>\<open>t\<close>, the key of the
  environment, the PDF loader and the page renderer (each resolves or rejects), and the
  recognition service.
\<close>

record batchWorld =
  translate :: "string \<Rightarrow> string"
  envApiKey :: string
  loadPdfDocument :: "jsFile \<Rightarrow> thrown + nat"
  renderSinglePage :: "nat \<Rightarrow> nat \<Rightarrow> string \<Rightarrow> thrown + imageInfo"
  generateContent :: "imageInfo \<Rightarrow> string \<Rightarrow> string \<Rightarrow> apiReply"

text \<open>
  The page image is one object, shared by the records made from it and by the handler.
  The handler empties its \<^verbatim>\<open>base64\<close> after the records were appended to the results,
  so the records in the results hold the emptied image.
\<close>

definition clearBase64 :: "productData \<Rightarrow> productData" where
  "clearBase64 p = p\<lparr>imagens := map (\<lambda>info. info\<lparr>base64 := []\<rparr>) (imagens p)\<rparr>"

text \<open>
  Reading the events of a run: a submission that the recognition service answered with
  an authentication failure (an error whose message includes \<^verbatim>\<open>AUTH_ERROR\<close>), and the
  records that a submission contributes to the results.
\<close>

fun isAuthFailure :: "event \<Rightarrow> bool" where
  "isAuthFailure (PageSubmitted f p (Inl (JsError msg))) = strIncludes msg ''AUTH_ERROR''"
| "isAuthFailure e = False"

fun retained :: "event \<Rightarrow> productData list" where
  "retained (PageSubmitted f p (Inr products)) = map clearBase64 products"
| "retained e = []"

text \<open>
  The document that is open after a sequence of events, starting with \<open>opened\<close>: a
  document is loaded only when none is open, a page is rendered or submitted only for
  the open document, and a document is destroyed only when it is the open one. \<open>None\<close>
  marks a sequence that breaks this discipline.
\<close>

fun afterEvents :: "string option \<Rightarrow> event list \<Rightarrow> string option option" where
  "afterEvents opened [] = Some opened"
| "afterEvents opened (DocumentLoaded f # es) =
     (if opened = None then afterEvents (Some f) es else None)"
| "afterEvents opened (PageRendered f p # es) =
     (if opened = Some f then afterEvents opened es else None)"
| "afterEvents opened (PageSubmitted f p reply # es) =
     (if opened = Some f then afterEvents opened es else None)"
| "afterEvents opened (DocumentDestroyed f # es) =
     (if opened = Some f then afterEvents None es else None)"

text \<open>
  The \<^verbatim>\<open>catch (pageError)\<close> clause: an error whose message includes \<^verbatim>\<open>AUTH_ERROR\<close>
  is thrown on as a new error; any other is logged and dropped.
\<close>

definition catchPageError :: "batchWorld \<Rightarrow> thrown \<Rightarrow> thrown option" where
  "catchPageError w pageError =
     (case pageError of
        JsError msg \<Rightarrow>
          if msg \<noteq> [] \<and> strIncludes msg ''AUTH_ERROR''
          then Some (JsError (translate w ''apiKeyMissingError'')) else None
      | JsOther v \<Rightarrow> None)"

text \<open>The \<^verbatim>\<open>try\<close> statement inside the loop over the pages, for one page.\<close>

definition processPage ::
  "batchWorld \<Rightarrow> string \<Rightarrow> string \<Rightarrow> jsFile \<Rightarrow> nat \<Rightarrow> nat \<Rightarrow> batchState \<Rightarrow> thrown option \<times> batchState" where
  "processPage w prompt apiKey file pdfDoc pageNum s =
     (let s1 = s\<lparr>events := events s @ [PageRendered (name file) pageNum]\<rparr>
      in case renderSinglePage w pdfDoc pageNum (name file) of
           Inl pageError \<Rightarrow> (catchPageError w pageError, s1)
         | Inr info \<Rightarrow>
             (let reply = extractProductDataFromPage (generateContent w) (envApiKey w) info prompt apiKey;
                  s2 = s1\<lparr>events := events s1 @ [PageSubmitted (name file) pageNum reply]\<rparr>
              in case reply of
                   Inl pageError \<Rightarrow> (catchPageError w pageError, s2)
                 | Inr products \<Rightarrow> (None, s2\<lparr>results := results s2 @ map clearBase64 products\<rparr>)))"

text \<open>The loop \<^verbatim>\<open>for (const pageNum of sortedPages)\<close>; a thrown error leaves it.\<close>

fun processPages ::
  "batchWorld \<Rightarrow> string \<Rightarrow> string \<Rightarrow> nat \<Rightarrow> jsFile \<Rightarrow> nat \<Rightarrow> nat list \<Rightarrow> batchState
     \<Rightarrow> thrown option \<times> batchState" where
  "processPages w prompt apiKey totalPages file pdfDoc [] s = (None, s)"
| "processPages w prompt apiKey totalPages file pdfDoc (pageNum # rest) s =
     (let s1 = s\<lparr>processedCount := processedCount s + 1\<rparr>;
          s2 = s1\<lparr>progress := Some (processedCount s1, totalPages,
                                      name file @ '' (p. '' @ showNat pageNum @ '')'')\<rparr>
      in case processPage w prompt apiKey file pdfDoc pageNum s2 of
           (Some err, s3) \<Rightarrow> (Some err, s3)
         | (None, s3) \<Rightarrow> processPages w prompt apiKey totalPages file pdfDoc rest s3)"

text \<open>
  The loop \<^verbatim>\<open>for (const file of filesToProcess)\<close>. The selected pages of a file are a
  \<^verbatim>\<open>Set\<close>, given by its elements; \<^verbatim>\<open>sortedPages\<close> is their ascending order. The call
  \<^verbatim>\<open>pdfDoc.destroy()\<close> is the statement after the loop over the pages.
\<close>

fun processFiles ::
  "batchWorld \<Rightarrow> (string \<Rightarrow> nat list option) \<Rightarrow> string \<Rightarrow> string \<Rightarrow> nat \<Rightarrow> jsFile list \<Rightarrow> batchState
     \<Rightarrow> thrown option \<times> batchState" where
  "processFiles w selectedPages prompt apiKey totalPages [] s = (None, s)"
| "processFiles w selectedPages prompt apiKey totalPages (file # rest) s =
     (case selectedPages (name file) of
        None \<Rightarrow> processFiles w selectedPages prompt apiKey totalPages rest s
      | Some pgs \<Rightarrow>
          (let s1 = s\<lparr>progress := Some (processedCount s, totalPages,
                                        translate w ''processingPreparing'' @ '' '' @ name file)\<rparr>
           in case loadPdfDocument w file of
                Inl err \<Rightarrow> (Some err, s1)
              | Inr pdfDoc \<Rightarrow>
                  (let s2 = s1\<lparr>events := events s1 @ [DocumentLoaded (name file)]\<rparr>;
                       sortedPages = sort pgs
                   in case processPages w prompt apiKey totalPages file pdfDoc sortedPages s2 of
                        (Some err, s3) \<Rightarrow> (Some err, s3)
                      | (None, s3) \<Rightarrow>
                          processFiles w selectedPages prompt apiKey totalPages rest
                            (s3\<lparr>events := events s3 @ [DocumentDestroyed (name file)]\<rparr>))))"

definition hasPages :: "(string \<Rightarrow> nat list option) \<Rightarrow> jsFile \<Rightarrow> bool" where
  "hasPages selectedPages file =
     (case selectedPages (name file) of None \<Rightarrow> False | Some pgs \<Rightarrow> pgs \<noteq> [])"

definition sizeOfSelection :: "(string \<Rightarrow> nat list option) \<Rightarrow> jsFile \<Rightarrow> nat" where
  "sizeOfSelection selectedPages file =
     (case selectedPages (name file) of None \<Rightarrow> 0 | Some pgs \<Rightarrow> length pgs)"

definition orElse :: "string \<Rightarrow> string \<Rightarrow> string" where
  "orElse a b = (if a = [] then b else a)"

text \<open>
  \<^verbatim>\<open>handleStartProcessing\<close>, from the state \<open>s0\<close> of the component. The message of a
  thrown value that is not an \<^verbatim>\<open>Error\<close> is \<^verbatim>\<open>undefined\<close>.
\<close>

definition handleStartProcessing ::
  "batchWorld \<Rightarrow> apiKeyConfig \<Rightarrow> jsFile list \<Rightarrow> (string \<Rightarrow> nat list option) \<Rightarrow> string \<Rightarrow> batchState
     \<Rightarrow> batchState" where
  "handleStartProcessing w cfg files selectedPages prompt s0 =
     (let s = s0\<lparr>error := None, results := [], processedCount := 0, events := []\<rparr>;
          filesToProcess = filter (hasPages selectedPages) files
      in if filesToProcess = [] then
           s\<lparr>error := Some (orElse (translate w ''pageSelectionError'') ''No pages selected.'')\<rparr>
         else
           let apiKey = (if mode cfg = CustomKey then customKey cfg else orElse (envApiKey w) [])
           in if apiKey = [] then
                s\<lparr>error := Some (translate w ''apiKeyMissingError''), apiKeyModalVisible := True\<rparr>
              else
                let s1 = s\<lparr>status := StatusProcessing\<rparr>;
                    totalPagesToProcess = sum_list (map (sizeOfSelection selectedPages) filesToProcess)
                in case processFiles w selectedPages prompt apiKey totalPagesToProcess filesToProcess s1 of
                     (None, s2) \<Rightarrow> s2\<lparr>status := StatusSuccess\<rparr>
                   | (Some err, s2) \<Rightarrow>
                       s2\<lparr>error := Some (orElse (case err of JsError msg \<Rightarrow> msg | JsOther v \<Rightarrow> [])
                                               ''An unknown error occurred.''),
                          status := StatusError\<rparr>)"

section \<open>Example inputs\<close>

text \<open>A one-page document, its operator list, and a browser in which everything succeeds.\<close>

definition exampleOPS :: ops where
  "exampleOPS = \<lparr>showText = 44, showSpacedText = 45, nextLineShowText = 46,
     nextLineSetSpacingShowText = 47, beginText = 31, endText = 32, setCharSpacing = 33,
     setWordSpacing = 34, paintImageXObject = 85\<rparr>"

definition exampleOpList :: opList where
  "exampleOpList = \<lparr>fnArray = [31, 44, 32, 85],
     argsArray = [None, Some [Name ''Hello''], None, Some [Name ''img_p0_1'', Number 10, Number 10]]\<rparr>"

definition examplePage :: pageProxy where
  "examplePage = \<lparr>viewportWidth = 612, viewportHeight = 792, operatorList = Some 0,
     commonObjs = (\<lambda>nm. None), objs = (\<lambda>nm. None)\<rparr>"

definition exampleDocument :: pdfDocument where
  "exampleDocument = \<lparr>pages = [examplePage]\<rparr>"

definition exampleStore :: store where
  "exampleStore = (\<lambda>r. if r = 0 then Some exampleOpList else None)"

definition exampleWorld :: world where
  "exampleWorld = \<lparr>pdfjsOPS = Some exampleOPS, cropContext = True, extractContext = (\<lambda>i. True),
     pageRender = (\<lambda>st pg rq. Inr (replicate (rqWidth rq * rqHeight rq * 4) 255))\<rparr>"

text \<open>
  A catalogue page whose object table holds four images: an RGB portrait of 150 by 300,
  a grey image of 200 by 200 at one bit per pixel, an RGB square of 200 by 200 and an RGB
  square of exactly 100 by 100. Its operator list paints the images named, in order.
\<close>

definition imagePortrait :: imgObj where
  "imagePortrait = \<lparr>width = 150, height = 300, kind = 2, data = replicate (150 * 300 * 3) 128\<rparr>"

definition imageGray :: imgObj where
  "imageGray = \<lparr>width = 200, height = 200, kind = 1, data = replicate (25 * 200) 0\<rparr>"

definition imageSquare :: imgObj where
  "imageSquare = \<lparr>width = 200, height = 200, kind = 2, data = replicate (200 * 200 * 3) 64\<rparr>"

definition imageHundred :: imgObj where
  "imageHundred = \<lparr>width = 100, height = 100, kind = 2, data = replicate (100 * 100 * 3) 64\<rparr>"

definition catalogObjs :: "operand \<Rightarrow> imgObj option" where
  "catalogObjs nm =
     (if nm = Name ''img_portrait'' then Some imagePortrait
      else if nm = Name ''img_gray'' then Some imageGray
      else if nm = Name ''img_square'' then Some imageSquare
      else if nm = Name ''img_hundred'' then Some imageHundred
      else None)"

definition catalogPage :: pageProxy where
  "catalogPage = \<lparr>viewportWidth = 612, viewportHeight = 792, operatorList = Some 1,
     commonObjs = (\<lambda>nm. None), objs = catalogObjs\<rparr>"

definition catalogDocument :: pdfDocument where
  "catalogDocument = \<lparr>pages = [catalogPage]\<rparr>"

definition paintList :: "string list \<Rightarrow> opList" where
  "paintList names = \<lparr>fnArray = map (\<lambda>nm. 85) names, argsArray = map (\<lambda>nm. Some [Name nm]) names\<rparr>"

definition catalogStore :: "string list \<Rightarrow> store" where
  "catalogStore names = (\<lambda>r. if r = 1 then Some (paintList names) else None)"

text \<open>
  A batch of two files, \<open>a.pdf\<close> with the pages 1 and 2 selected and \<open>b.pdf\<close> with
  page 1, a custom key, and a world in which loading and rendering succeed. The
  recognition service is a parameter: the one of \<open>rejectingService\<close> answers every page
  but page 2 of \<open>a.pdf\<close>, where it fails as the API does on a key that is not valid.
\<close>

definition fileA :: jsFile where
  "fileA = \<lparr>name = ''a.pdf'', bytes = []\<rparr>"

definition fileB :: jsFile where
  "fileB = \<lparr>name = ''b.pdf'', bytes = []\<rparr>"

definition batchSelection :: "string \<Rightarrow> nat list option" where
  "batchSelection = map_of [(''a.pdf'', [2, 1]), (''b.pdf'', [1])]"

definition batchConfig :: apiKeyConfig where
  "batchConfig = \<lparr>mode = CustomKey, customKey = ''some-key''\<rparr>"

definition pageImage :: "string \<Rightarrow> nat \<Rightarrow> imageInfo" where
  "pageImage fname p =
     \<lparr>filename = fname @ ''-page-'' @ showNat p, page = p, hash = fname @ ''-'' @ showNat p,
      base64 = ''data:image/jpeg;base64,AAAA''\<rparr>"

definition answeringService :: "imageInfo \<Rightarrow> string \<Rightarrow> string \<Rightarrow> apiReply" where
  "answeringService info prompt apiKey = ApiAnswered [''chair'']"

definition rejectingService :: "imageInfo \<Rightarrow> string \<Rightarrow> string \<Rightarrow> apiReply" where
  "rejectingService info prompt apiKey =
     (if filename info = ''a.pdf-page-2'' then ApiFailed (JsError ''[401] API key not valid'')
      else ApiAnswered [''chair''])"

definition batchWorldWith :: "(imageInfo \<Rightarrow> string \<Rightarrow> string \<Rightarrow> apiReply) \<Rightarrow> batchWorld" where
  "batchWorldWith service =
     \<lparr>translate = (\<lambda>key. if key = ''apiKeyMissingError'' then ''The API key is missing.'' else key),
      envApiKey = [],
      loadPdfDocument = (\<lambda>f. if name f = ''a.pdf'' then Inr 1 else Inr 2),
      renderSinglePage = (\<lambda>pdfDoc p fname. Inr (pageImage fname p)),
      generateContent = service\<rparr>"

definition idleState :: batchState where
  "idleState = \<lparr>results = [], status = StatusIdle, error = None, progress = None,
     apiKeyModalVisible = False, processedCount = 0, events = []\<rparr>"

definition chairOn :: "string \<Rightarrow> nat \<Rightarrow> productData" where
  "chairOn fname p =
     \<lparr>product = ''chair'', origem_source_pdf = fname, origem_page = p, imagens = [pageImage fname p]\<rparr>"

definition rejectedRun :: batchState where
  "rejectedRun =
     handleStartProcessing (batchWorldWith rejectingService) batchConfig [fileA, fileB] batchSelection
       ''prompt'' idleState"

definition answeredRun :: batchState where
  "answeredRun =
     handleStartProcessing (batchWorldWith answeringService) batchConfig [fileA, fileB] batchSelection
       ''prompt'' idleState"

section \<open>Properties of the CMYK conversion\<close>

lemma mathRound_nearest: "\<bar>real_of_int (mathRound x) - x\<bar> \<le> 1 / 2"
  unfolding mathRound_def by linarith

lemma uint_toUint8Clamped: "0 \<le> v \<Longrightarrow> v \<le> 255 \<Longrightarrow> uint (toUint8Clamped v) = v"
  by (simp add: toUint8Clamped_def uint_word_of_int take_bit_int_eq_self)

lemma byteNum_bounds: "0 \<le> byteNum b" "byteNum b \<le> 255"
proof -
  show "0 \<le> byteNum b" unfolding byteNum_def by (rule of_nat_0_le_iff)
  have "unat b < 2 ^ 8" using unsigned_less [of b] by simp
  then have "unat b \<le> 255" by simp
  then have "real (unat b) \<le> real 255" by (simp only: of_nat_le_iff)
  then show "byteNum b \<le> 255" unfolding byteNum_def by simp
qed

lemma channel_bounds:
  "0 \<le> 255 * (1 - byteNum a / 255) * (1 - byteNum k / 255)"
  "255 * (1 - byteNum a / 255) * (1 - byteNum k / 255) \<le> 255"
proof -
  define u where "u = 1 - byteNum a / 255"
  define v where "v = 1 - byteNum k / 255"
  have u: "0 \<le> u" "u \<le> 1" using byteNum_bounds [of a] by (simp_all add: u_def)
  have v: "0 \<le> v" "v \<le> 1" using byteNum_bounds [of k] by (simp_all add: v_def)
  have lo: "0 \<le> u * v" using u v by simp
  have hi: "u * v \<le> 1 * 1" using u v by (intro mult_mono) simp_all
  have "0 \<le> 255 * (u * v)" using lo by linarith
  then show "0 \<le> 255 * (1 - byteNum a / 255) * (1 - byteNum k / 255)"
    by (simp only: u_def v_def mult.assoc)
  have "255 * (u * v) \<le> 255" using hi by linarith
  then show "255 * (1 - byteNum a / 255) * (1 - byteNum k / 255) \<le> 255"
    by (simp only: u_def v_def mult.assoc)
qed

lemma mathRound_channel:
  "0 \<le> mathRound (255 * (1 - byteNum a / 255) * (1 - byteNum k / 255))"
  "mathRound (255 * (1 - byteNum a / 255) * (1 - byteNum k / 255)) \<le> 255"
  using channel_bounds [of a k] unfolding mathRound_def by linarith+

lemma uint_channel:
  "uint (toUint8Clamped (mathRound (255 * (1 - byteNum a / 255) * (1 - byteNum k / 255))))
     = mathRound (255 * (1 - byteNum a / 255) * (1 - byteNum k / 255))"
  by (rule uint_toUint8Clamped) (rule mathRound_channel)+

lemma length_cmykPixel: "length (cmykPixel cb mb yb kb) = 4"
  by (simp add: cmykPixel_def Let_def)

lemma length_convertCMYKtoRGB: "length (convertCMYKtoRGB xs) = length xs"
  by (induction xs rule: convertCMYKtoRGB.induct) (simp_all add: length_cmykPixel)

lemma convertCMYKtoRGB_nth:
  "length cmyk = 4 * n \<Longrightarrow> p < n \<Longrightarrow>
     take 4 (drop (4 * p) (convertCMYKtoRGB cmyk)) =
     cmykPixel (cmyk ! (4 * p)) (cmyk ! (4 * p + 1)) (cmyk ! (4 * p + 2)) (cmyk ! (4 * p + 3))"
proof (induction n arbitrary: cmyk p)
  case 0
  then show ?case by simp
next
  case (Suc n)
  from Suc.prems(1) obtain cb mb yb kb rest
    where cmyk: "cmyk = cb # mb # yb # kb # rest" and rest: "length rest = 4 * n"
    by (cases cmyk rule: convertCMYKtoRGB.cases) auto
  show ?case
  proof (cases p)
    case 0
    then show ?thesis by (simp add: cmyk length_cmykPixel)
  next
    case (Suc q)
    with Suc.prems(2) have q: "q < n" by simp
    have "drop (4 * p) (convertCMYKtoRGB cmyk) = drop (4 * q) (convertCMYKtoRGB rest)"
      by (simp add: cmyk Suc length_cmykPixel)
    moreover have "cmyk ! (4 * p + i) = rest ! (4 * q + i)" for i
      by (simp add: cmyk Suc)
    ultimately show ?thesis
      using Suc.IH [OF rest q] by (metis add.right_neutral)
  qed
qed

lemma cmykPixel_nth:
  "cmykPixel cb mb yb kb ! 0 =
     toUint8Clamped (mathRound (255 * (1 - byteNum cb / 255) * (1 - byteNum kb / 255)))"
  "cmykPixel cb mb yb kb ! 1 =
     toUint8Clamped (mathRound (255 * (1 - byteNum mb / 255) * (1 - byteNum kb / 255)))"
  "cmykPixel cb mb yb kb ! 2 =
     toUint8Clamped (mathRound (255 * (1 - byteNum yb / 255) * (1 - byteNum kb / 255)))"
  "cmykPixel cb mb yb kb ! 3 = 255"
  unfolding cmykPixel_def Let_def by (simp_all only: nth_Cons_0 nth_Cons_numeral One_nat_def nth_Cons_Suc
    numeral_2_eq_2 numeral_3_eq_3 pred_numeral_simps arith_simps diff_Suc_1)

lemma convertCMYKtoRGB_pixel_at:
  assumes "length cmyk = 4 * n" and "p < n" and "i < 4"
  shows "convertCMYKtoRGB cmyk ! (4 * p + i) =
     cmykPixel (cmyk ! (4 * p)) (cmyk ! (4 * p + 1)) (cmyk ! (4 * p + 2)) (cmyk ! (4 * p + 3)) ! i"
proof -
  have "4 * p + i < length (convertCMYKtoRGB cmyk)"
    using assms by (simp add: length_convertCMYKtoRGB)
  then have "convertCMYKtoRGB cmyk ! (4 * p + i) = take 4 (drop (4 * p) (convertCMYKtoRGB cmyk)) ! i"
    using assms(3) by simp
  then show ?thesis
    using convertCMYKtoRGB_nth [OF assms(1) assms(2)] by simp
qed

text \<open>
  C5. For a CMYK buffer of \<open>n\<close> whole pixels the conversion returns \<open>n\<close> RGBA pixels,
  and at every pixel \<open>p\<close> the red, green and blue bytes are \<open>255 (1 - C) (1 - K)\<close>,
  \<open>255 (1 - M) (1 - K)\<close> and \<open>255 (1 - Y) (1 - K)\<close> rounded to the nearest integer,
  with \<open>C\<close>, \<open>M\<close>, \<open>Y\<close>, \<open>K\<close> the raw bytes divided by 255, and the alpha byte is 255.
  Raw \<open>(0,0,0,0)\<close> gives white, raw \<open>(0,0,0,255)\<close> gives black and raw \<open>(255,0,0,0)\<close>
  gives \<open>(0,255,255)\<close>.
\<close>

theorem convertCMYKtoRGB_formula:
  assumes "length cmyk = 4 * n" and "p < n"
  shows "length (convertCMYKtoRGB cmyk) = 4 * n
    \<and> uint (convertCMYKtoRGB cmyk ! (4 * p)) =
        mathRound (255 * (1 - byteNum (cmyk ! (4 * p)) / 255) * (1 - byteNum (cmyk ! (4 * p + 3)) / 255))
    \<and> uint (convertCMYKtoRGB cmyk ! (4 * p + 1)) =
        mathRound (255 * (1 - byteNum (cmyk ! (4 * p + 1)) / 255) * (1 - byteNum (cmyk ! (4 * p + 3)) / 255))
    \<and> uint (convertCMYKtoRGB cmyk ! (4 * p + 2)) =
        mathRound (255 * (1 - byteNum (cmyk ! (4 * p + 2)) / 255) * (1 - byteNum (cmyk ! (4 * p + 3)) / 255))
    \<and> convertCMYKtoRGB cmyk ! (4 * p + 3) = 255
    \<and> convertCMYKtoRGB [0, 0, 0, 0] = [255, 255, 255, 255]
    \<and> convertCMYKtoRGB [0, 0, 0, 255] = [0, 0, 0, 255]
    \<and> convertCMYKtoRGB [255, 0, 0, 0] = [0, 255, 255, 255]"
proof -
  note at = convertCMYKtoRGB_pixel_at [OF assms]
  have len: "length (convertCMYKtoRGB cmyk) = 4 * n"
    using assms(1) by (simp add: length_convertCMYKtoRGB)
  have r: "uint (convertCMYKtoRGB cmyk ! (4 * p)) =
        mathRound (255 * (1 - byteNum (cmyk ! (4 * p)) / 255) * (1 - byteNum (cmyk ! (4 * p + 3)) / 255))"
  proof -
    have "convertCMYKtoRGB cmyk ! (4 * p) =
        cmykPixel (cmyk ! (4 * p)) (cmyk ! (4 * p + 1)) (cmyk ! (4 * p + 2)) (cmyk ! (4 * p + 3)) ! 0"
      using at [of 0] by simp
    then show ?thesis by (simp only: cmykPixel_nth uint_channel)
  qed
  have g: "uint (convertCMYKtoRGB cmyk ! (4 * p + 1)) =
        mathRound (255 * (1 - byteNum (cmyk ! (4 * p + 1)) / 255) * (1 - byteNum (cmyk ! (4 * p + 3)) / 255))"
  proof -
    have "convertCMYKtoRGB cmyk ! (4 * p + 1) =
        cmykPixel (cmyk ! (4 * p)) (cmyk ! (4 * p + 1)) (cmyk ! (4 * p + 2)) (cmyk ! (4 * p + 3)) ! 1"
      using at [of 1] by simp
    then show ?thesis by (simp only: cmykPixel_nth uint_channel)
  qed
  have b: "uint (convertCMYKtoRGB cmyk ! (4 * p + 2)) =
        mathRound (255 * (1 - byteNum (cmyk ! (4 * p + 2)) / 255) * (1 - byteNum (cmyk ! (4 * p + 3)) / 255))"
  proof -
    have "convertCMYKtoRGB cmyk ! (4 * p + 2) =
        cmykPixel (cmyk ! (4 * p)) (cmyk ! (4 * p + 1)) (cmyk ! (4 * p + 2)) (cmyk ! (4 * p + 3)) ! 2"
      using at [of 2] by simp
    then show ?thesis by (simp only: cmykPixel_nth uint_channel)
  qed
  have a: "convertCMYKtoRGB cmyk ! (4 * p + 3) = 255"
  proof -
    have "convertCMYKtoRGB cmyk ! (4 * p + 3) =
        cmykPixel (cmyk ! (4 * p)) (cmyk ! (4 * p + 1)) (cmyk ! (4 * p + 2)) (cmyk ! (4 * p + 3)) ! 3"
      using at [of 3] by simp
    then show ?thesis by (simp only: cmykPixel_nth)
  qed
  have white: "convertCMYKtoRGB [0, 0, 0, 0] = [255, 255, 255, 255]"
    by (simp add: cmykPixel_def byteNum_def mathRound_def toUint8Clamped_def)
  have black: "convertCMYKtoRGB [0, 0, 0, 255] = [0, 0, 0, 255]"
    by (simp add: cmykPixel_def byteNum_def mathRound_def toUint8Clamped_def)
  have cyan: "convertCMYKtoRGB [255, 0, 0, 0] = [0, 255, 255, 255]"
    by (simp add: cmykPixel_def byteNum_def mathRound_def toUint8Clamped_def)
  from len r g b a white black cyan show ?thesis by (intro conjI)
qed

theorem convertCMYKtoRGB_formula_witness:
  "length [255, 0, 0, 0, 10, 20, 30, 40 :: byte] = 4 * 2 \<and> (1 :: nat) < 2
    \<and> length (convertCMYKtoRGB [255, 0, 0, 0, 10, 20, 30, 40]) = 4 * 2
    \<and> uint (convertCMYKtoRGB [255, 0, 0, 0, 10, 20, 30, 40] ! 4) = 207
    \<and> uint (convertCMYKtoRGB [255, 0, 0, 0, 10, 20, 30, 40] ! 5) = 198
    \<and> uint (convertCMYKtoRGB [255, 0, 0, 0, 10, 20, 30, 40] ! 6) = 190
    \<and> convertCMYKtoRGB [255, 0, 0, 0, 10, 20, 30, 40] ! 7 = 255"
proof -
  have h1: "length [255, 0, 0, 0, 10, 20, 30, 40 :: byte] = 4 * 2" by simp
  have h2: "(1 :: nat) < 2" by simp
  show ?thesis
    using convertCMYKtoRGB_formula [OF h1 h2] h1 h2
    by (simp add: cmykPixel_def toUint8Clamped_def byteNum_def mathRound_def)
qed

text \<open>
  The exact value of a channel is a multiple of \<open>1/255\<close>, so it is never closer than
  \<open>1/510\<close> to a rounding tie: every number within \<open>1/510\<close> of it rounds to the same
  byte. The rounding error of the double arithmetic of the source is far below that.
\<close>

lemma channel_as_fraction:
  "255 * (1 - byteNum a / 255) * (1 - byteNum k / 255) =
     real ((255 - unat a) * (255 - unat k)) / 255"
proof -
  have "unat a < 2 ^ 8" using unsigned_less [of a] by simp
  then have a: "unat a \<le> 255" by simp
  have "unat k < 2 ^ 8" using unsigned_less [of k] by simp
  then have k: "unat k \<le> 255" by simp
  show ?thesis
    unfolding byteNum_def using a k by (simp add: of_nat_diff field_simps)
qed

lemma round_fraction_stable:
  fixes y :: real
  assumes "\<bar>y - real n / 255\<bar> < 1 / 510"
  shows "mathRound y = mathRound (real n / 255)"
proof -
  define m where "m = 2 * n + 255"
  define q where "q = m div 510"
  define r where "r = m mod 510"
  have m: "m = 510 * q + r" and r_lt: "r < 510" by (simp_all add: q_def r_def)
  have "odd m" by (simp add: m_def)
  then have "odd r" using m by simp
  then have r1: "1 \<le> r" and r509: "r \<le> 509" using r_lt by (auto elim: oddE)
  have x: "real n / 255 + 1 / 2 = real m / 510" by (simp add: m_def field_simps)
  have mq: "real m / 510 = real q + real r / 510" by (simp add: m field_simps)
  have lo: "real q + 1 / 510 \<le> real n / 255 + 1 / 2"
    unfolding x mq using r1 by (simp add: field_simps)
  have hi: "real n / 255 + 1 / 2 \<le> real q + 509 / 510"
    unfolding x mq using r509 by (simp add: field_simps)
  have "\<lfloor>real n / 255 + 1 / 2\<rfloor> = int q" using lo hi by linarith
  moreover have "\<lfloor>y + 1 / 2\<rfloor> = int q" using lo hi assms by linarith
  ultimately show ?thesis by (simp add: mathRound_def)
qed

lemma mathRound_channel_stable:
  assumes "\<bar>y - 255 * (1 - byteNum a / 255) * (1 - byteNum k / 255)\<bar> < 1 / 510"
  shows "mathRound y = mathRound (255 * (1 - byteNum a / 255) * (1 - byteNum k / 255))"
  using assms unfolding channel_as_fraction by (rule round_fraction_stable)

section \<open>Properties of the text suppression\<close>

lemma suppress_fold:
  "n \<le> length args \<Longrightarrow>
     length (fold (\<lambda>i a. if fn ! i \<in> T then jsArraySet a i (Some []) else a) [0..<n] args) = length args
     \<and> (\<forall>i < length args.
          fold (\<lambda>i a. if fn ! i \<in> T then jsArraySet a i (Some []) else a) [0..<n] args ! i =
          (if i < n \<and> fn ! i \<in> T then Some [] else args ! i))"
proof (induction n)
  case 0
  then show ?case by simp
next
  case (Suc n)
  then have IH: "length (fold (\<lambda>i a. if fn ! i \<in> T then jsArraySet a i (Some []) else a) [0..<n] args) = length args"
    "\<And>i. i < length args \<Longrightarrow>
          fold (\<lambda>i a. if fn ! i \<in> T then jsArraySet a i (Some []) else a) [0..<n] args ! i =
          (if i < n \<and> fn ! i \<in> T then Some [] else args ! i)"
    by simp_all
  from Suc.prems have n: "n < length args" by simp
  show ?case
    using n IH by (auto simp: jsArraySet_def nth_list_update less_Suc_eq)
qed

text \<open>
  C4. Text suppression with the operator table present, on an operator list whose two
  arrays have the same length: the operator array is unchanged, the operand array keeps
  its length, the operands of every operation whose operator is one of \<open>showText\<close>,
  \<open>showSpacedText\<close>, \<open>nextLineShowText\<close>, \<open>nextLineSetSpacingShowText\<close>, \<open>beginText\<close>,
  \<open>endText\<close>, \<open>setCharSpacing\<close>, \<open>setWordSpacing\<close> become the empty list, and the
  operands of every other operation are unchanged.
\<close>

theorem suppressText_operations:
  assumes "length (argsArray ol) = length (fnArray ol)"
  shows "fnArray (suppressText (Some tbl) ol) = fnArray ol
    \<and> length (argsArray (suppressText (Some tbl) ol)) = length (argsArray ol)
    \<and> (\<forall>i < length (fnArray ol).
          argsArray (suppressText (Some tbl) ol) ! i =
          (if fnArray ol ! i \<in> textOps tbl then Some [] else argsArray ol ! i))"
  using suppress_fold [of "length (fnArray ol)" "argsArray ol" "fnArray ol" "textOps tbl"] assms
  by (simp add: suppressText_def)

theorem suppressText_operations_witness:
  "length (argsArray exampleOpList) = length (fnArray exampleOpList)
    \<and> fnArray (suppressText (Some exampleOPS) exampleOpList) = [31, 44, 32, 85]
    \<and> length (argsArray (suppressText (Some exampleOPS) exampleOpList)) = 4
    \<and> argsArray (suppressText (Some exampleOPS) exampleOpList) ! 0 = Some []
    \<and> argsArray (suppressText (Some exampleOPS) exampleOpList) ! 1 = Some []
    \<and> argsArray (suppressText (Some exampleOPS) exampleOpList) ! 2 = Some []
    \<and> argsArray (suppressText (Some exampleOPS) exampleOpList) ! 3 =
        Some [Name ''img_p0_1'', Number 10, Number 10]"
proof -
  have h: "length (argsArray exampleOpList) = length (fnArray exampleOpList)"
    by (simp add: exampleOpList_def)
  note t = suppressText_operations [OF h, of exampleOPS]
  from t have nth: "i < length (fnArray exampleOpList) \<Longrightarrow>
      argsArray (suppressText (Some exampleOPS) exampleOpList) ! i =
        (if fnArray exampleOpList ! i \<in> textOps exampleOPS then Some [] else argsArray exampleOpList ! i)" for i
    by blast
  have n0: "argsArray (suppressText (Some exampleOPS) exampleOpList) ! 0 = Some []"
    using nth [of 0] by (simp add: exampleOpList_def exampleOPS_def textOps_def)
  have n1: "argsArray (suppressText (Some exampleOPS) exampleOpList) ! 1 = Some []"
    using nth [of 1] by (simp add: exampleOpList_def exampleOPS_def textOps_def)
  have n2: "argsArray (suppressText (Some exampleOPS) exampleOpList) ! 2 = Some []"
    using nth [of 2] by (simp add: exampleOpList_def exampleOPS_def textOps_def)
  have n3: "argsArray (suppressText (Some exampleOPS) exampleOpList) ! 3 =
        Some [Name ''img_p0_1'', Number 10, Number 10]"
    using nth [of 3] by (simp add: exampleOpList_def exampleOPS_def textOps_def)
  have f: "fnArray (suppressText (Some exampleOPS) exampleOpList) = [31, 44, 32, 85]"
    using t by (simp add: exampleOpList_def)
  have l: "length (argsArray (suppressText (Some exampleOPS) exampleOpList)) = 4"
    using t by (simp add: exampleOpList_def)
  from h f l n0 n1 n2 n3 show ?thesis by (intro conjI)
qed

section \<open>Properties of the crop\<close>








lemma renderHighQualityCrop_fst:
  "fst (renderHighQualityCrop w st pdf pageNumber box_2d scale) =
     (case fst (cropBody w st pdf pageNumber box_2d (case scale of None \<Rightarrow> 4 | Some s \<Rightarrow> s)) of
        Threw e \<Rightarrow> Returned None
      | Returned res \<Rightarrow> Returned res)"
  by (simp add: renderHighQualityCrop_def split: prod.splits outcome.splits)




lemma example_getPage_none: "getPage exampleDocument 7 = None"
  by (simp add: getPage_def exampleDocument_def)






lemma cropBody_invalid_box:
  assumes "\<forall>pg \<in> set (pages pdf). 0 \<le> viewportWidth pg \<and> 0 \<le> viewportHeight pg"
    and "clamp1000 xmax \<le> clamp1000 xmin \<or> clamp1000 ymax \<le> clamp1000 ymin"
  shows "cropBody w st pdf pageNumber (ymin, xmin, ymax, xmax) scale = (Returned None, st, [])
       \<or> cropBody w st pdf pageNumber (ymin, xmin, ymax, xmax) scale = (Threw PageError, st, [])"
proof (cases "getPage pdf pageNumber")
  case None
  then show ?thesis by (simp add: cropBody_def)
next
  case (Some pg)
  then have "pg \<in> set (pages pdf)"
    by (auto simp: getPage_def split: if_splits)
  with assms(1) have vp: "0 \<le> viewportWidth pg" "0 \<le> viewportHeight pg" by auto
  have "cropWidthOf pg (ymin, xmin, ymax, xmax) \<le> 0 \<or> cropHeightOf pg (ymin, xmin, ymax, xmax) \<le> 0"
    using assms(2) vp
    by (auto simp: cropWidthOf_def cropHeightOf_def mult_le_0_iff)
  with Some show ?thesis by (simp add: cropBody_def)
qed

text \<open>
  C8. On a document whose viewports have no negative side, a box with \<open>xmax \<le> xmin\<close> or
  \<open>ymax \<le> ymin\<close> after clamping makes the crop return \<^verbatim>\<open>null\<close> with no effect at all:
  no canvas is created, nothing is rendered, and the store is untouched.
\<close>

theorem renderHighQualityCrop_invalid_box:
  assumes "\<forall>pg \<in> set (pages pdf). 0 \<le> viewportWidth pg \<and> 0 \<le> viewportHeight pg"
    and "clamp1000 xmax \<le> clamp1000 xmin \<or> clamp1000 ymax \<le> clamp1000 ymin"
  shows "renderHighQualityCrop w st pdf pageNumber (ymin, xmin, ymax, xmax) scale = (Returned None, st, [])"
  using cropBody_invalid_box [OF assms, of w st pageNumber "case scale of None \<Rightarrow> 4 | Some s \<Rightarrow> s"]
  by (auto simp: renderHighQualityCrop_def)

theorem renderHighQualityCrop_invalid_box_witness:
  "list_all (\<lambda>pg. 0 \<le> viewportWidth pg \<and> 0 \<le> viewportHeight pg) (pages exampleDocument)
   \<and> (clamp1000 0 \<le> clamp1000 0 \<or> clamp1000 0 \<le> clamp1000 0)
   \<and> renderHighQualityCrop exampleWorld exampleStore exampleDocument 1 (0, 0, 0, 0) None =
       (Returned None, exampleStore, [])"
proof -
  have h1: "\<forall>pg \<in> set (pages exampleDocument). 0 \<le> viewportWidth pg \<and> 0 \<le> viewportHeight pg"
    by (simp add: exampleDocument_def examplePage_def)
  have h2: "clamp1000 0 \<le> clamp1000 0 \<or> clamp1000 0 \<le> clamp1000 0" by simp
  show ?thesis
    using renderHighQualityCrop_invalid_box [OF h1 h2, of exampleWorld exampleStore 1 None] h1 h2
    by (simp add: list_all_iff)
qed




section \<open>Properties of the extraction\<close>

lemma catalog_getPage: "getPage catalogDocument 1 = Some catalogPage"
  by (simp add: getPage_def catalogDocument_def)

lemma catalog_getOperatorList:
  "getOperatorList (catalogStore names) catalogPage = Some (1, paintList names)"
  by (simp add: getOperatorList_def catalogStore_def catalogPage_def)

lemma lookup_catalog:
  "lookupImage catalogPage (Some (Name ''img_portrait'')) = Some imagePortrait"
  "lookupImage catalogPage (Some (Name ''img_gray'')) = Some imageGray"
  "lookupImage catalogPage (Some (Name ''img_square'')) = Some imageSquare"
  "lookupImage catalogPage (Some (Name ''img_hundred'')) = Some imageHundred"
  by (simp_all add: lookupImage_def catalogPage_def catalogObjs_def)

lemma dims_catalog:
  "width imagePortrait = 150" "height imagePortrait = 300"
  "width imageGray = 200" "height imageGray = 200"
  "width imageSquare = 200" "height imageSquare = 200"
  "width imageHundred = 100" "height imageHundred = 100"
  by (simp_all add: imagePortrait_def imageGray_def imageSquare_def imageHundred_def)

lemma score_catalog:
  "aspectDiffOf imagePortrait 100 100 = 1 / 2" "scoreOf imagePortrait 100 100 = 50"
  "aspectDiffOf imageGray 100 100 = 0" "scoreOf imageGray 100 100 = 100"
  "aspectDiffOf imageSquare 100 100 = 0" "scoreOf imageSquare 100 100 = 100"
  by (simp_all add: aspectDiffOf_def scoreOf_def imagePortrait_def imageGray_def imageSquare_def)

lemma draw_catalog:
  "drawCandidate exampleWorld i imagePortrait bi =
     Returned (Some (PNG 150 300 (writeInto (150 * 300 * 4) (rgbToRgba (data imagePortrait)))))"
  "drawCandidate exampleWorld i imageGray bi = Returned bi"
  "drawCandidate exampleWorld i imageSquare bi =
     Returned (Some (PNG 200 200 (writeInto (200 * 200 * 4) (rgbToRgba (data imageSquare)))))"
  by (simp_all add: drawCandidate_def exampleWorld_def imagePortrait_def imageGray_def imageSquare_def Let_def)

lemma scanStep_resolved:
  assumes "fnArray ol ! i = paintImageXObject tbl"
    and "argsAt (argsArray ol) i = Some (nm # rest)"
    and "lookupImage pg (Some nm) = Some img"
  shows "scanStep w tbl pg ol boxWidth boxHeight i (bestImage, bestScore) =
     (if width img > 100 \<and> height img > 100 then
        if boxHeight = 0 then Returned (bestImage, bestScore)
        else if aspectDiffOf img boxWidth boxHeight > 0.5 then Returned (bestImage, bestScore)
        else if scoreOf img boxWidth boxHeight > bestScore then
          (case drawCandidate w i img bestImage of
             Threw e \<Rightarrow> Threw e
           | Returned bi \<Rightarrow> Returned (bi, scoreOf img boxWidth boxHeight))
        else Returned (bestImage, bestScore)
      else Returned (bestImage, bestScore))"
  using assms by (simp add: scanStep_def Let_def)

lemma paintList_step:
  assumes "i < length names" and "lookupImage catalogPage (Some (Name (names ! i))) = Some img"
  shows "scanStep w exampleOPS catalogPage (paintList names) boxWidth boxHeight i (bestImage, bestScore) =
     (if width img > 100 \<and> height img > 100 then
        if boxHeight = 0 then Returned (bestImage, bestScore)
        else if aspectDiffOf img boxWidth boxHeight > 0.5 then Returned (bestImage, bestScore)
        else if scoreOf img boxWidth boxHeight > bestScore then
          (case drawCandidate w i img bestImage of
             Threw e \<Rightarrow> Threw e
           | Returned bi \<Rightarrow> Returned (bi, scoreOf img boxWidth boxHeight))
        else Returned (bestImage, bestScore)
      else Returned (bestImage, bestScore))"
proof (rule scanStep_resolved [where nm = "Name (names ! i)" and rest = "[]"])
  show "fnArray (paintList names) ! i = paintImageXObject exampleOPS"
    using assms(1) by (simp add: paintList_def exampleOPS_def)
  show "argsAt (argsArray (paintList names)) i = Some [Name (names ! i)]"
    using assms(1) by (simp add: paintList_def argsAt_def)
  show "lookupImage catalogPage (Some (Name (names ! i))) = Some img" by (rule assms(2))
qed

lemma scanOps_paintList:
  "scanOps exampleWorld catalogPage (paintList names) boxWidth boxHeight =
     scanLoop (scanStep exampleWorld exampleOPS catalogPage (paintList names) boxWidth boxHeight)
       [0..<length names] (None, - 1)"
  by (simp add: scanOps_def exampleWorld_def paintList_def)

lemma extractBest_catalog:
  "extractBestImageForBox exampleWorld (catalogStore names) catalogDocument 1 (ymin, xmin, ymax, xmax) =
     (case scanOps exampleWorld catalogPage (paintList names) (xmax - xmin) (ymax - ymin) of
        Threw e \<Rightarrow> Returned None
      | Returned (bestImage, bestScore) \<Rightarrow> if bestScore < 70 then Returned None else Returned bestImage)"
  unfolding extractBestImageForBox_def extractBody_def catalog_getPage
  by (simp add: catalog_getOperatorList split: outcome.splits prod.splits)

lemma scan_portrait_gray:
  "scanOps exampleWorld catalogPage (paintList [''img_portrait'', ''img_gray'']) 100 100 =
     Returned (Some (PNG 150 300 (writeInto (150 * 300 * 4) (rgbToRgba (data imagePortrait)))), 100)"
proof -
  have s0: "scanStep exampleWorld exampleOPS catalogPage (paintList [''img_portrait'', ''img_gray'']) 100 100 0 (None, - 1) =
      Returned (Some (PNG 150 300 (writeInto (150 * 300 * 4) (rgbToRgba (data imagePortrait)))), 50)"
    by (subst paintList_step [where img = imagePortrait])
       (simp_all add: lookup_catalog score_catalog draw_catalog dims_catalog)
  have s1: "scanStep exampleWorld exampleOPS catalogPage (paintList [''img_portrait'', ''img_gray'']) 100 100 1
       (Some (PNG 150 300 (writeInto (150 * 300 * 4) (rgbToRgba (data imagePortrait)))), 50) =
      Returned (Some (PNG 150 300 (writeInto (150 * 300 * 4) (rgbToRgba (data imagePortrait)))), 100)"
    by (subst paintList_step [where img = imageGray])
       (simp_all add: lookup_catalog score_catalog draw_catalog dims_catalog)
  have idx: "[0..<length [''img_portrait'', ''img_gray'']] = [0, 1]"
    by (simp add: upt_rec)
  show ?thesis
    unfolding scanOps_paintList idx by (simp only: scanLoop.simps s0 s1 outcome.case)
qed

lemma scan_gray_square:
  "scanOps exampleWorld catalogPage (paintList [''img_gray'', ''img_square'']) 100 100 =
     Returned (None, 100)"
proof -
  have s0: "scanStep exampleWorld exampleOPS catalogPage (paintList [''img_gray'', ''img_square'']) 100 100 0 (None, - 1) =
      Returned (None, 100)"
    by (subst paintList_step [where img = imageGray])
       (simp_all add: lookup_catalog score_catalog draw_catalog dims_catalog)
  have s1: "scanStep exampleWorld exampleOPS catalogPage (paintList [''img_gray'', ''img_square'']) 100 100 1 (None, 100) =
      Returned (None, 100)"
    by (subst paintList_step [where img = imageSquare])
       (simp_all add: lookup_catalog score_catalog draw_catalog dims_catalog)
  have idx: "[0..<length [''img_gray'', ''img_square'']] = [0, 1]"
    by (simp add: upt_rec)
  show ?thesis
    unfolding scanOps_paintList idx by (simp only: scanLoop.simps s0 s1 outcome.case)
qed

lemma scan_hundred:
  "scanOps exampleWorld catalogPage (paintList [''img_hundred'']) 100 100 = Returned (None, - 1)"
proof -
  have s0: "scanStep exampleWorld exampleOPS catalogPage (paintList [''img_hundred'']) 100 100 0 (None, - 1) =
      Returned (None, - 1)"
    by (subst paintList_step [where img = imageHundred])
       (simp_all add: lookup_catalog dims_catalog)
  have idx: "[0..<length [''img_hundred'']] = [0]"
    by (simp add: upt_rec)
  show ?thesis
    unfolding scanOps_paintList idx by (simp only: scanLoop.simps s0 outcome.case)
qed

lemma scan_square:
  "scanOps exampleWorld catalogPage (paintList [''img_square'']) 100 100 =
     Returned (Some (PNG 200 200 (writeInto (200 * 200 * 4) (rgbToRgba (data imageSquare)))), 100)"
proof -
  have s0: "scanStep exampleWorld exampleOPS catalogPage (paintList [''img_square'']) 100 100 0 (None, - 1) =
      Returned (Some (PNG 200 200 (writeInto (200 * 200 * 4) (rgbToRgba (data imageSquare)))), 100)"
    by (subst paintList_step [where img = imageSquare])
       (simp_all add: lookup_catalog score_catalog draw_catalog dims_catalog)
  have idx: "[0..<length [''img_square'']] = [0]"
    by (simp add: upt_rec)
  show ?thesis
    unfolding scanOps_paintList idx by (simp only: scanLoop.simps s0 outcome.case)
qed

lemma paintList_hyps:
  "fnArray (paintList [nm]) ! 0 = paintImageXObject exampleOPS"
  "argsAt (argsArray (paintList [nm])) 0 = Some (Name nm # [])"
  by (simp_all add: paintList_def exampleOPS_def argsAt_def)

lemma catalog_getPage_none: "getPage catalogDocument 7 = None"
  by (simp add: getPage_def catalogDocument_def)

text \<open>
  C1, at two pages the code can receive. The score is written to \<^verbatim>\<open>bestScore\<close> before
  the candidate is drawn, so a candidate that is then skipped for its pixel format keeps
  its score in \<^verbatim>\<open>bestScore\<close>. On the page that paints the portrait (score 50) and
  then the grey image (score 100, skipped), the function returns the portrait, whose
  score is below 70. On the page that paints the grey image and then the RGB square
  (score 100, supported), the function returns \<^verbatim>\<open>null\<close>.
\<close>

theorem extractBest_skipped_candidate_sets_score:
  "scoreOf imagePortrait 100 100 = 50
   \<and> scoreOf imageGray 100 100 = 100
   \<and> scoreOf imageSquare 100 100 = 100
   \<and> drawCandidate exampleWorld 1 imageGray None = Returned None
   \<and> extractBestImageForBox exampleWorld (catalogStore [''img_portrait'', ''img_gray'']) catalogDocument 1
        (0, 0, 100, 100) =
       Returned (Some (PNG 150 300 (writeInto (150 * 300 * 4) (rgbToRgba (data imagePortrait)))))
   \<and> extractBestImageForBox exampleWorld (catalogStore [''img_gray'', ''img_square'']) catalogDocument 1
        (0, 0, 100, 100) = Returned None"
proof -
  have a: "extractBestImageForBox exampleWorld (catalogStore [''img_portrait'', ''img_gray'']) catalogDocument 1
        (0, 0, 100, 100) =
       Returned (Some (PNG 150 300 (writeInto (150 * 300 * 4) (rgbToRgba (data imagePortrait)))))"
    unfolding extractBest_catalog by (simp only: diff_zero scan_portrait_gray outcome.case prod.case) simp
  have b: "extractBestImageForBox exampleWorld (catalogStore [''img_gray'', ''img_square'']) catalogDocument 1
        (0, 0, 100, 100) = Returned None"
    unfolding extractBest_catalog by (simp only: diff_zero scan_gray_square outcome.case prod.case) simp
  from score_catalog(2,4,6) draw_catalog(2) [of 1 None] a b show ?thesis by (intro conjI)
qed


text \<open>
  C9, as the code has it. A resolved candidate passes the size check exactly when its
  width and its height are both greater than 100: otherwise the iteration changes
  nothing; a candidate that passes goes through the aspect filter (more than 0.5 away:
  nothing changes) and the comparison of its score with the best score so far.
\<close>

theorem size_check_strict:
  assumes "fnArray ol ! i = paintImageXObject tbl"
    and "argsAt (argsArray ol) i = Some (nm # rest)"
    and "lookupImage pg (Some nm) = Some img"
  shows "(\<not> (100 < width img \<and> 100 < height img) \<longrightarrow>
            scanStep w tbl pg ol boxWidth boxHeight i (bestImage, bestScore) = Returned (bestImage, bestScore))
       \<and> (100 < width img \<and> 100 < height img \<and> boxHeight \<noteq> 0
            \<and> 1 / 2 < aspectDiffOf img boxWidth boxHeight \<longrightarrow>
            scanStep w tbl pg ol boxWidth boxHeight i (bestImage, bestScore) = Returned (bestImage, bestScore))
       \<and> (100 < width img \<and> 100 < height img \<and> boxHeight \<noteq> 0
            \<and> aspectDiffOf img boxWidth boxHeight \<le> 1 / 2
            \<and> scoreOf img boxWidth boxHeight \<le> bestScore \<longrightarrow>
            scanStep w tbl pg ol boxWidth boxHeight i (bestImage, bestScore) = Returned (bestImage, bestScore))
       \<and> (100 < width img \<and> 100 < height img \<and> boxHeight \<noteq> 0
            \<and> aspectDiffOf img boxWidth boxHeight \<le> 1 / 2
            \<and> bestScore < scoreOf img boxWidth boxHeight \<longrightarrow>
            scanStep w tbl pg ol boxWidth boxHeight i (bestImage, bestScore) =
              (case drawCandidate w i img bestImage of
                 Threw e \<Rightarrow> Threw e
               | Returned bi \<Rightarrow> Returned (bi, scoreOf img boxWidth boxHeight)))"
  unfolding scanStep_resolved [OF assms] by simp

theorem size_check_strict_witness:
  "scanStep exampleWorld exampleOPS catalogPage (paintList [''img_hundred'']) 100 100 0 (None, - 1) =
      Returned (None, - 1)
   \<and> scanStep exampleWorld exampleOPS catalogPage (paintList [''img_square'']) 100 100 0 (None, - 1) =
      Returned (Some (PNG 200 200 (writeInto (200 * 200 * 4) (rgbToRgba (data imageSquare)))), 100)
   \<and> scanStep exampleWorld exampleOPS catalogPage (paintList [''img_portrait'']) 200 100 0 (None, - 1) =
      Returned (None, - 1)
   \<and> scanStep exampleWorld exampleOPS catalogPage (paintList [''img_square'']) 100 100 0 (None, 150) =
      Returned (None, 150)"
proof -
  note small = size_check_strict [OF paintList_hyps lookup_catalog(4),
      of exampleWorld 100 100 None "- 1"]
  note square = size_check_strict [OF paintList_hyps lookup_catalog(3),
      of exampleWorld 100 100 None "- 1"]
  note far = size_check_strict [OF paintList_hyps lookup_catalog(1),
      of exampleWorld 200 100 None "- 1"]
  note low = size_check_strict [OF paintList_hyps lookup_catalog(3),
      of exampleWorld 100 100 None 150]
  have a: "scanStep exampleWorld exampleOPS catalogPage (paintList [''img_hundred'']) 100 100 0 (None, - 1) =
      Returned (None, - 1)"
    using small by (simp add: dims_catalog)
  have b: "scanStep exampleWorld exampleOPS catalogPage (paintList [''img_square'']) 100 100 0 (None, - 1) =
      Returned (Some (PNG 200 200 (writeInto (200 * 200 * 4) (rgbToRgba (data imageSquare)))), 100)"
    using square by (simp add: dims_catalog score_catalog draw_catalog)
  have far_diff: "aspectDiffOf imagePortrait 200 100 = 3 / 2"
    by (simp add: aspectDiffOf_def imagePortrait_def)
  have c: "scanStep exampleWorld exampleOPS catalogPage (paintList [''img_portrait'']) 200 100 0 (None, - 1) =
      Returned (None, - 1)"
    using far by (simp add: dims_catalog far_diff)
  have d: "scanStep exampleWorld exampleOPS catalogPage (paintList [''img_square'']) 100 100 0 (None, 150) =
      Returned (None, 150)"
    using low by (simp add: dims_catalog score_catalog)
  from a b c d show ?thesis by (intro conjI)
qed


text \<open>
  C9, as the claim states it, fails: an RGB image of exactly 100 by 100 whose aspect is
  the aspect of the box is passed over by the scan, which ends with the initial score
  \<open>-1\<close>, and the function returns \<^verbatim>\<open>null\<close>; the same page with an image of 200 by
  200 returns that image.
\<close>

theorem size_check_hundred_counterexample:
  "width imageHundred = 100 \<and> height imageHundred = 100
   \<and> lookupImage catalogPage (Some (Name ''img_hundred'')) = Some imageHundred
   \<and> scanOps exampleWorld catalogPage (paintList [''img_hundred'']) 100 100 = Returned (None, - 1)
   \<and> extractBestImageForBox exampleWorld (catalogStore [''img_hundred'']) catalogDocument 1
        (0, 0, 100, 100) = Returned None
   \<and> extractBestImageForBox exampleWorld (catalogStore [''img_square'']) catalogDocument 1
        (0, 0, 100, 100) =
       Returned (Some (PNG 200 200 (writeInto (200 * 200 * 4) (rgbToRgba (data imageSquare)))))"
proof -
  have a: "extractBestImageForBox exampleWorld (catalogStore [''img_hundred'']) catalogDocument 1
        (0, 0, 100, 100) = Returned None"
    unfolding extractBest_catalog by (simp only: diff_zero scan_hundred outcome.case prod.case) simp
  have b: "extractBestImageForBox exampleWorld (catalogStore [''img_square'']) catalogDocument 1
        (0, 0, 100, 100) =
       Returned (Some (PNG 200 200 (writeInto (200 * 200 * 4) (rgbToRgba (data imageSquare)))))"
    unfolding extractBest_catalog by (simp only: diff_zero scan_square outcome.case prod.case) simp
  from dims_catalog(7,8) lookup_catalog(4) scan_hundred a b show ?thesis by (intro conjI)
qed

text \<open>
  C10. \<^verbatim>\<open>renderHighQualityCrop\<close> and \<^verbatim>\<open>extractBestImageForBox\<close> always return, a data
  URI or \<^verbatim>\<open>null\<close>, whatever the page number, the box, the store and the browser: an
  error thrown inside either body becomes \<^verbatim>\<open>null\<close>, which is also what
  \<^verbatim>\<open>extractBestImageForBox\<close> returns when the best score is below 70.
\<close>

theorem no_exception_escapes:
  "(\<exists>res. fst (renderHighQualityCrop w st pdf pageNumber (ymin, xmin, ymax, xmax) scale) = Returned res)
   \<and> (\<exists>res. extractBestImageForBox w st pdf pageNumber (ymin, xmin, ymax, xmax) = Returned res)
   \<and> (\<forall>e. fst (cropBody w st pdf pageNumber (ymin, xmin, ymax, xmax)
                  (case scale of None \<Rightarrow> 4 | Some s \<Rightarrow> s)) = Threw e \<longrightarrow>
          fst (renderHighQualityCrop w st pdf pageNumber (ymin, xmin, ymax, xmax) scale) = Returned None)
   \<and> (\<forall>e. extractBody w st pdf pageNumber (ymin, xmin, ymax, xmax) = Threw e \<longrightarrow>
          extractBestImageForBox w st pdf pageNumber (ymin, xmin, ymax, xmax) = Returned None)
   \<and> (\<forall>pg r ol bestImage bestScore.
          getPage pdf pageNumber = Some pg \<and> getOperatorList st pg = Some (r, ol)
          \<and> scanOps w pg ol (xmax - xmin) (ymax - ymin) = Returned (bestImage, bestScore)
          \<and> bestScore < 70 \<longrightarrow>
          extractBestImageForBox w st pdf pageNumber (ymin, xmin, ymax, xmax) = Returned None)"
proof (intro conjI allI impI)
  show "\<exists>res. fst (renderHighQualityCrop w st pdf pageNumber (ymin, xmin, ymax, xmax) scale) = Returned res"
    unfolding renderHighQualityCrop_fst by (simp split: outcome.splits)
  show "\<exists>res. extractBestImageForBox w st pdf pageNumber (ymin, xmin, ymax, xmax) = Returned res"
    unfolding extractBestImageForBox_def by (simp split: outcome.splits)
next
  fix e
  assume "fst (cropBody w st pdf pageNumber (ymin, xmin, ymax, xmax)
                  (case scale of None \<Rightarrow> 4 | Some s \<Rightarrow> s)) = Threw e"
  then show "fst (renderHighQualityCrop w st pdf pageNumber (ymin, xmin, ymax, xmax) scale) = Returned None"
    unfolding renderHighQualityCrop_fst by simp
next
  fix e
  assume "extractBody w st pdf pageNumber (ymin, xmin, ymax, xmax) = Threw e"
  then show "extractBestImageForBox w st pdf pageNumber (ymin, xmin, ymax, xmax) = Returned None"
    unfolding extractBestImageForBox_def by simp
next
  fix pg r ol bestImage bestScore
  assume "getPage pdf pageNumber = Some pg \<and> getOperatorList st pg = Some (r, ol)
          \<and> scanOps w pg ol (xmax - xmin) (ymax - ymin) = Returned (bestImage, bestScore)
          \<and> bestScore < 70"
  then show "extractBestImageForBox w st pdf pageNumber (ymin, xmin, ymax, xmax) = Returned None"
    unfolding extractBestImageForBox_def extractBody_def by simp
qed

theorem no_exception_escapes_witness:
  "extractBody exampleWorld (catalogStore [''img_hundred'']) catalogDocument 7 (0, 0, 100, 100) = Threw PageError
   \<and> extractBestImageForBox exampleWorld (catalogStore [''img_hundred'']) catalogDocument 7 (0, 0, 100, 100) =
       Returned None
   \<and> fst (cropBody exampleWorld (catalogStore [''img_hundred'']) catalogDocument 7 (0, 0, 100, 100) 4) =
       Threw PageError
   \<and> fst (renderHighQualityCrop exampleWorld (catalogStore [''img_hundred'']) catalogDocument 7
            (0, 0, 100, 100) None) = Returned None
   \<and> getPage catalogDocument 1 = Some catalogPage
   \<and> getOperatorList (catalogStore [''img_hundred'']) catalogPage = Some (1, paintList [''img_hundred''])
   \<and> scanOps exampleWorld catalogPage (paintList [''img_hundred'']) (100 - 0) (100 - 0) = Returned (None, - 1)
   \<and> (- 1 :: real) < 70
   \<and> extractBestImageForBox exampleWorld (catalogStore [''img_hundred'']) catalogDocument 1 (0, 0, 100, 100) =
       Returned None"
proof -
  note thrown = no_exception_escapes
    [of exampleWorld "catalogStore [''img_hundred'']" catalogDocument 7 0 0 100 100 None]
  note low = no_exception_escapes
    [of exampleWorld "catalogStore [''img_hundred'']" catalogDocument 1 0 0 100 100 None]
  have body: "extractBody exampleWorld (catalogStore [''img_hundred'']) catalogDocument 7 (0, 0, 100, 100) =
      Threw PageError"
    unfolding extractBody_def catalog_getPage_none by simp
  have crop: "fst (cropBody exampleWorld (catalogStore [''img_hundred'']) catalogDocument 7 (0, 0, 100, 100) 4) =
      Threw PageError"
    unfolding cropBody_def catalog_getPage_none by simp
  have a: "extractBestImageForBox exampleWorld (catalogStore [''img_hundred'']) catalogDocument 7 (0, 0, 100, 100) =
       Returned None"
    using thrown body by blast
  have b: "fst (renderHighQualityCrop exampleWorld (catalogStore [''img_hundred'']) catalogDocument 7
            (0, 0, 100, 100) None) = Returned None"
    using thrown crop by simp
  have scan: "scanOps exampleWorld catalogPage (paintList [''img_hundred'']) (100 - 0) (100 - 0) =
      Returned (None, - 1)"
    using scan_hundred by simp
  have lt: "(- 1 :: real) < 70" by simp
  have c: "extractBestImageForBox exampleWorld (catalogStore [''img_hundred'']) catalogDocument 1 (0, 0, 100, 100) =
       Returned None"
    using low catalog_getPage catalog_getOperatorList [of "[''img_hundred'']"] scan lt by blast
  from body a crop b catalog_getPage catalog_getOperatorList [of "[''img_hundred'']"] scan lt c
  show ?thesis by (intro conjI)
qed

section \<open>Properties of the batch loop\<close>

lemma strIncludes_nonempty: "strIncludes msg (c # cs) \<Longrightarrow> msg \<noteq> []"
  by (cases msg) simp_all

lemma catchPageError_Some:
  "catchPageError w pageError = Some err \<Longrightarrow> err = JsError (translate w ''apiKeyMissingError'')"
  by (auto simp: catchPageError_def split: thrown.splits if_splits)

lemma catchPageError_None:
  "catchPageError w pageError = None \<Longrightarrow> \<not> isAuthFailure (PageSubmitted f p (Inl pageError))"
  by (cases pageError) (auto simp: catchPageError_def split: if_splits dest: strIncludes_nonempty)

lemma processPage_ok:
  assumes "processPage w prompt apiKey file pdfDoc pageNum s = (None, s')"
    and "\<forall>e \<in> set (events s). \<not> isAuthFailure e"
    and "results s = concat (map retained (events s))"
  shows "(\<forall>e \<in> set (events s'). \<not> isAuthFailure e) \<and> results s' = concat (map retained (events s'))"
  using assms
  by (auto simp: processPage_def Let_def split: sum.splits dest: catchPageError_None)

lemma processPage_abort:
  assumes "processPage w prompt apiKey file pdfDoc pageNum s = (Some err, s')"
    and "\<forall>e \<in> set (events s). \<not> isAuthFailure e"
    and "results s = concat (map retained (events s))"
  shows "err = JsError (translate w ''apiKeyMissingError'')
       \<and> events s' \<noteq> []
       \<and> (\<forall>e \<in> set (butlast (events s')). \<not> isAuthFailure e)
       \<and> results s' = concat (map retained (events s'))"
  using assms
  by (auto simp: processPage_def Let_def butlast_append split: sum.splits dest: catchPageError_Some)

lemma processPages_ok:
  assumes "processPages w prompt apiKey totalPages file pdfDoc pgs s = (None, s')"
    and "\<forall>e \<in> set (events s). \<not> isAuthFailure e"
    and "results s = concat (map retained (events s))"
  shows "(\<forall>e \<in> set (events s'). \<not> isAuthFailure e) \<and> results s' = concat (map retained (events s'))"
  using assms
proof (induction pgs arbitrary: s)
  case Nil
  then show ?case by simp
next
  case (Cons pageNum rest)
  let ?s2 = "s\<lparr>processedCount := processedCount s + 1,
               progress := Some (processedCount s + 1, totalPages,
                                 name file @ '' (p. '' @ showNat pageNum @ '')'')\<rparr>"
  obtain r s3 where step: "processPage w prompt apiKey file pdfDoc pageNum ?s2 = (r, s3)"
    by (cases "processPage w prompt apiKey file pdfDoc pageNum ?s2") auto
  from Cons.prems(1) step have r: "r = None"
    and rest: "processPages w prompt apiKey totalPages file pdfDoc rest s3 = (None, s')"
    by (auto simp: Let_def split: option.splits)
  have "(\<forall>e \<in> set (events s3). \<not> isAuthFailure e) \<and> results s3 = concat (map retained (events s3))"
    using step [unfolded r] Cons.prems(2,3) by (intro processPage_ok [where s = ?s2]) simp_all
  then show ?case using Cons.IH [OF rest] by blast
qed

lemma processPages_abort:
  assumes "processPages w prompt apiKey totalPages file pdfDoc pgs s = (Some err, s')"
    and "\<forall>e \<in> set (events s). \<not> isAuthFailure e"
    and "results s = concat (map retained (events s))"
  shows "err = JsError (translate w ''apiKeyMissingError'')
       \<and> events s' \<noteq> []
       \<and> (\<forall>e \<in> set (butlast (events s')). \<not> isAuthFailure e)
       \<and> results s' = concat (map retained (events s'))"
  using assms
proof (induction pgs arbitrary: s)
  case Nil
  then show ?case by simp
next
  case (Cons pageNum rest)
  let ?s2 = "s\<lparr>processedCount := processedCount s + 1,
               progress := Some (processedCount s + 1, totalPages,
                                 name file @ '' (p. '' @ showNat pageNum @ '')'')\<rparr>"
  obtain r s3 where step: "processPage w prompt apiKey file pdfDoc pageNum ?s2 = (r, s3)"
    by (cases "processPage w prompt apiKey file pdfDoc pageNum ?s2") auto
  show ?case
  proof (cases r)
    case None
    with Cons.prems(1) step
    have rest: "processPages w prompt apiKey totalPages file pdfDoc rest s3 = (Some err, s')"
      by (simp add: Let_def)
    have "(\<forall>e \<in> set (events s3). \<not> isAuthFailure e) \<and> results s3 = concat (map retained (events s3))"
      using step [unfolded None] Cons.prems(2,3) by (intro processPage_ok [where s = ?s2]) simp_all
    then show ?thesis using Cons.IH [OF rest] by blast
  next
    case (Some e)
    with Cons.prems(1) step have eq: "e = err" "s3 = s'"
      by (simp_all add: Let_def)
    show ?thesis
      using step [unfolded Some eq] Cons.prems(2,3) by (intro processPage_abort [where s = ?s2]) simp_all
  qed
qed


lemma processFiles_ok:
  assumes "processFiles w selectedPages prompt apiKey totalPages files s = (None, s')"
    and "\<forall>e \<in> set (events s). \<not> isAuthFailure e"
    and "results s = concat (map retained (events s))"
  shows "(\<forall>e \<in> set (events s'). \<not> isAuthFailure e) \<and> results s' = concat (map retained (events s'))"
  using assms
proof (induction files arbitrary: s)
  case Nil
  then show ?case by simp
next
  case (Cons fl rest)
  show ?case
  proof (cases "selectedPages (name fl)")
    case None
    with Cons.prems(1) have "processFiles w selectedPages prompt apiKey totalPages rest s = (None, s')"
      by simp
    from Cons.IH [OF this Cons.prems(2,3)] show ?thesis .
  next
    case (Some pgs)
    let ?s1 = "s\<lparr>progress := Some (processedCount s, totalPages,
                                     translate w ''processingPreparing'' @ '' '' @ name fl)\<rparr>"
    from Cons.prems(1) Some obtain pdfDoc where load: "loadPdfDocument w fl = Inr pdfDoc"
      by (auto simp: Let_def split: sum.splits)
    let ?s2 = "?s1\<lparr>events := events ?s1 @ [DocumentLoaded (name fl)]\<rparr>"
    obtain r s3 where pages: "processPages w prompt apiKey totalPages fl pdfDoc (sort pgs) ?s2 = (r, s3)"
      by (cases "processPages w prompt apiKey totalPages fl pdfDoc (sort pgs) ?s2") auto
    from Cons.prems(1) Some load pages have r: "r = None"
      and rest: "processFiles w selectedPages prompt apiKey totalPages rest
                   (s3\<lparr>events := events s3 @ [DocumentDestroyed (name fl)]\<rparr>) = (None, s')"
      by (auto simp: Let_def split: option.splits)
    have "(\<forall>e \<in> set (events s3). \<not> isAuthFailure e) \<and> results s3 = concat (map retained (events s3))"
      using pages [unfolded r] Cons.prems(2,3) by (intro processPages_ok [where s = ?s2]) simp_all
    then show ?thesis by (intro Cons.IH [OF rest]) simp_all
  qed
qed

lemma processFiles_abort:
  assumes "processFiles w selectedPages prompt apiKey totalPages files s = (Some err, s')"
    and "\<forall>e \<in> set (events s). \<not> isAuthFailure e"
    and "results s = concat (map retained (events s))"
  shows "(\<forall>e \<in> set (butlast (events s')). \<not> isAuthFailure e)
       \<and> (events s' \<noteq> [] \<and> isAuthFailure (last (events s')) \<longrightarrow>
            err = JsError (translate w ''apiKeyMissingError''))
       \<and> results s' = concat (map retained (events s'))"
  using assms
proof (induction files arbitrary: s)
  case Nil
  then show ?case by simp
next
  case (Cons fl rest)
  show ?case
  proof (cases "selectedPages (name fl)")
    case None
    with Cons.prems(1) have "processFiles w selectedPages prompt apiKey totalPages rest s = (Some err, s')"
      by simp
    from Cons.IH [OF this Cons.prems(2,3)] show ?thesis .
  next
    case (Some pgs)
    let ?s1 = "s\<lparr>progress := Some (processedCount s, totalPages,
                                     translate w ''processingPreparing'' @ '' '' @ name fl)\<rparr>"
    show ?thesis
    proof (cases "loadPdfDocument w fl")
      case (Inl e)
      with Cons.prems(1) Some have s': "s' = ?s1" by (simp add: Let_def)
      have ev: "events s' = events s" and res: "results s' = results s" by (simp_all add: s')
      have "\<forall>e \<in> set (butlast (events s)). \<not> isAuthFailure e"
        using Cons.prems(2) by (meson in_set_butlastD)
      moreover have "events s \<noteq> [] \<longrightarrow> \<not> isAuthFailure (last (events s))"
        using Cons.prems(2) by simp
      ultimately show ?thesis using Cons.prems(3) unfolding ev res by blast
    next
      case (Inr pdfDoc)
      let ?s2 = "?s1\<lparr>events := events ?s1 @ [DocumentLoaded (name fl)]\<rparr>"
      obtain r s3 where pages: "processPages w prompt apiKey totalPages fl pdfDoc (sort pgs) ?s2 = (r, s3)"
        by (cases "processPages w prompt apiKey totalPages fl pdfDoc (sort pgs) ?s2") auto
      show ?thesis
      proof (cases r)
        case None
        with Cons.prems(1) Some Inr pages
        have rest: "processFiles w selectedPages prompt apiKey totalPages rest
                   (s3\<lparr>events := events s3 @ [DocumentDestroyed (name fl)]\<rparr>) = (Some err, s')"
          by (simp add: Let_def)
        have "(\<forall>e \<in> set (events s3). \<not> isAuthFailure e) \<and> results s3 = concat (map retained (events s3))"
          using pages [unfolded None] Cons.prems(2,3) by (intro processPages_ok [where s = ?s2]) simp_all
        then show ?thesis by (intro Cons.IH [OF rest]) simp_all
      next
        case (Some e)
        with Cons.prems(1) \<open>selectedPages (name fl) = Some pgs\<close> Inr pages
        have eq: "e = err" "s3 = s'" by (simp_all add: Let_def)
        have "err = JsError (translate w ''apiKeyMissingError'')
           \<and> events s' \<noteq> []
           \<and> (\<forall>e \<in> set (butlast (events s')). \<not> isAuthFailure e)
           \<and> results s' = concat (map retained (events s'))"
          using pages [unfolded Some eq] Cons.prems(2,3)
          by (intro processPages_abort [where s = ?s2]) simp_all
        then show ?thesis by blast
      qed
    qed
  qed
qed

lemma auth_only_last:
  assumes "\<forall>e \<in> set (butlast es). \<not> isAuthFailure e"
    and "i < length es" and "isAuthFailure (es ! i)"
  shows "Suc i = length es \<and> es \<noteq> [] \<and> isAuthFailure (last es)"
proof -
  have "\<not> i < length es - 1"
  proof
    assume lt: "i < length es - 1"
    then have "butlast es ! i = es ! i" by (simp add: nth_butlast)
    moreover have "butlast es ! i \<in> set (butlast es)" using lt by simp
    ultimately show False using assms(1,3) by auto
  qed
  with assms(2) have i: "Suc i = length es" by simp
  then have ne: "es \<noteq> []" by auto
  have "last es = es ! i" using i ne by (metis diff_Suc_1 last_conv_nth)
  with assms(3) i ne show ?thesis by simp
qed

text \<open>
  How the recognition service signals an authentication failure: an API error whose
  message includes \<open>401\<close> or \<open>API key\<close> is thrown on as an \<open>AUTH_ERROR\<close>.
\<close>

lemma strIncludes_append: "strIncludes s sub \<Longrightarrow> strIncludes (pre @ s) sub"
  by (induction pre) auto

lemma recognition_auth_signal:
  assumes "apiKey \<noteq> []"
    and "prefix ''data:image/jpeg;base64,'' (base64 info)"
    and "service info prompt apiKey = ApiFailed (JsError msg)"
    and "strIncludes msg ''401'' \<or> strIncludes msg ''API key''"
  shows "extractProductDataFromPage service envKey info prompt apiKey =
           Inl (JsError ''AUTH_ERROR: The provided API Key is not valid.'')"
    and "isAuthFailure (PageSubmitted f p (extractProductDataFromPage service envKey info prompt apiKey))"
proof -
  show eq: "extractProductDataFromPage service envKey info prompt apiKey =
           Inl (JsError ''AUTH_ERROR: The provided API Key is not valid.'')"
    using assms by (auto simp: extractProductDataFromPage_def Let_def)
  show "isAuthFailure (PageSubmitted f p (extractProductDataFromPage service envKey info prompt apiKey))"
    unfolding eq by simp
qed

text \<open>
  C3. In every run of the handler, a submission that the recognition service answers
  with an authentication failure is the last event of the run: no page of any file is
  rendered or submitted after it. The run ends in the error status with the error
  message set, and the results are the records of the submissions answered before it.
\<close>

theorem auth_failure_aborts_batch:
  assumes "handleStartProcessing w cfg files selectedPages prompt s0 = s'"
    and "i < length (events s')"
    and "isAuthFailure (events s' ! i)"
  shows "Suc i = length (events s')
       \<and> status s' = StatusError
       \<and> error s' = Some (orElse (translate w ''apiKeyMissingError'') ''An unknown error occurred.'')
       \<and> results s' = concat (map retained (events s'))"
proof -
  define s where "s = s0\<lparr>error := None, results := [], processedCount := 0, events := []\<rparr>"
  define filesToProcess where "filesToProcess = filter (hasPages selectedPages) files"
  define apiKey where "apiKey = (if mode cfg = CustomKey then customKey cfg else orElse (envApiKey w) [])"
  define totalPages where "totalPages = sum_list (map (sizeOfSelection selectedPages) filesToProcess)"
  have ne: "events s' \<noteq> []" using assms(2) by auto
  have run: "filesToProcess \<noteq> [] \<and> apiKey \<noteq> []"
    using assms(1) ne
    by (auto simp: handleStartProcessing_def Let_def s_def filesToProcess_def apiKey_def split: if_splits)
  obtain r s2 where loop: "processFiles w selectedPages prompt apiKey totalPages filesToProcess
      (s\<lparr>status := StatusProcessing\<rparr>) = (r, s2)"
    by (cases "processFiles w selectedPages prompt apiKey totalPages filesToProcess
      (s\<lparr>status := StatusProcessing\<rparr>)") auto
  have init: "\<forall>e \<in> set (events (s\<lparr>status := StatusProcessing\<rparr>)). \<not> isAuthFailure e"
    "results (s\<lparr>status := StatusProcessing\<rparr>) = concat (map retained (events (s\<lparr>status := StatusProcessing\<rparr>)))"
    by (simp_all add: s_def)
  show ?thesis
  proof (cases r)
    case None
    from assms(1) run loop None have s': "s' = s2\<lparr>status := StatusSuccess\<rparr>"
      by (simp add: handleStartProcessing_def Let_def s_def filesToProcess_def apiKey_def totalPages_def)
    have "\<forall>e \<in> set (events s2). \<not> isAuthFailure e"
      using processFiles_ok [OF loop [unfolded None] init] by blast
    with assms(2,3) show ?thesis by (auto simp: s')
  next
    case (Some err)
    from assms(1) run loop Some
    have s': "s' = s2\<lparr>error := Some (orElse (case err of JsError msg \<Rightarrow> msg | JsOther v \<Rightarrow> [])
                                               ''An unknown error occurred.''),
                      status := StatusError\<rparr>"
      by (simp add: handleStartProcessing_def Let_def s_def filesToProcess_def apiKey_def totalPages_def)
    note post = processFiles_abort [OF loop [unfolded Some] init]
    have ev: "events s' = events s2" and res: "results s' = results s2" by (simp_all add: s')
    from post have bl: "\<forall>e \<in> set (butlast (events s2)). \<not> isAuthFailure e" by blast
    from auth_only_last [OF bl assms(2,3) [unfolded ev]]
    have last: "Suc i = length (events s2)" "events s2 \<noteq> []" "isAuthFailure (last (events s2))"
      by simp_all
    with post have err: "err = JsError (translate w ''apiKeyMissingError'')" by blast
    from post have "results s2 = concat (map retained (events s2))" by blast
    with last(1) err show ?thesis by (simp add: s')
  qed
qed

lemma rejected_run:
  "rejectedRun =
   \<lparr>results = [clearBase64 (chairOn ''a.pdf'' 1)],
    status = StatusError,
    error = Some ''The API key is missing.'',
    progress = Some (2, 3, ''a.pdf (p. 2)''),
    apiKeyModalVisible = False,
    processedCount = 2,
    events = [DocumentLoaded ''a.pdf'',
              PageRendered ''a.pdf'' 1,
              PageSubmitted ''a.pdf'' 1 (Inr [chairOn ''a.pdf'' 1]),
              PageRendered ''a.pdf'' 2,
              PageSubmitted ''a.pdf'' 2 (Inl (JsError ''AUTH_ERROR: The provided API Key is not valid.''))]\<rparr>"
  by code_simp

lemma answered_run:
  "answeredRun =
   \<lparr>results = [clearBase64 (chairOn ''a.pdf'' 1), clearBase64 (chairOn ''a.pdf'' 2),
               clearBase64 (chairOn ''b.pdf'' 1)],
    status = StatusSuccess,
    error = None,
    progress = Some (3, 3, ''b.pdf (p. 1)''),
    apiKeyModalVisible = False,
    processedCount = 3,
    events = [DocumentLoaded ''a.pdf'',
              PageRendered ''a.pdf'' 1,
              PageSubmitted ''a.pdf'' 1 (Inr [chairOn ''a.pdf'' 1]),
              PageRendered ''a.pdf'' 2,
              PageSubmitted ''a.pdf'' 2 (Inr [chairOn ''a.pdf'' 2]),
              DocumentDestroyed ''a.pdf'',
              DocumentLoaded ''b.pdf'',
              PageRendered ''b.pdf'' 1,
              PageSubmitted ''b.pdf'' 1 (Inr [chairOn ''b.pdf'' 1]),
              DocumentDestroyed ''b.pdf'']\<rparr>"
  by code_simp

text \<open>
  The scenario of C3: two files with the pages 1, 2 and 1 selected, and an authentication
  failure on page 2 of the first file. The failed submission is the fifth and last
  event, no event names the second file, and the results are the record of page 1 of the
  first file.
\<close>

theorem auth_failure_aborts_batch_witness:
  "events rejectedRun =
     [DocumentLoaded ''a.pdf'',
      PageRendered ''a.pdf'' 1,
      PageSubmitted ''a.pdf'' 1 (Inr [chairOn ''a.pdf'' 1]),
      PageRendered ''a.pdf'' 2,
      PageSubmitted ''a.pdf'' 2 (Inl (JsError ''AUTH_ERROR: The provided API Key is not valid.''))]
   \<and> isAuthFailure (events rejectedRun ! 4)
   \<and> Suc 4 = length (events rejectedRun)
   \<and> status rejectedRun = StatusError
   \<and> error rejectedRun = Some ''The API key is missing.''
   \<and> results rejectedRun = [clearBase64 (chairOn ''a.pdf'' 1)]"
proof -
  have ev: "events rejectedRun =
     [DocumentLoaded ''a.pdf'',
      PageRendered ''a.pdf'' 1,
      PageSubmitted ''a.pdf'' 1 (Inr [chairOn ''a.pdf'' 1]),
      PageRendered ''a.pdf'' 2,
      PageSubmitted ''a.pdf'' 2 (Inl (JsError ''AUTH_ERROR: The provided API Key is not valid.''))]"
    by (simp add: rejected_run)
  have h1: "handleStartProcessing (batchWorldWith rejectingService) batchConfig [fileA, fileB] batchSelection
       ''prompt'' idleState = rejectedRun"
    by (simp only: rejectedRun_def)
  have h2: "4 < length (events rejectedRun)" by (simp add: ev)
  have h3: "isAuthFailure (events rejectedRun ! 4)" by (simp add: ev)
  note t = auth_failure_aborts_batch [OF h1 h2 h3]
  have tr: "translate (batchWorldWith rejectingService) ''apiKeyMissingError'' = ''The API key is missing.''"
    by (simp add: batchWorldWith_def)
  from t have len: "Suc 4 = length (events rejectedRun)" by blast
  from t have st: "status rejectedRun = StatusError" by blast
  from t have "error rejectedRun =
      Some (orElse (translate (batchWorldWith rejectingService) ''apiKeyMissingError'')
              ''An unknown error occurred.'')"
    by blast
  then have er: "error rejectedRun = Some ''The API key is missing.''"
    by (simp add: tr orElse_def)
  from t have "results rejectedRun = concat (map retained (events rejectedRun))" by blast
  then have rs: "results rejectedRun = [clearBase64 (chairOn ''a.pdf'' 1)]"
    by (simp add: ev)
  from ev h3 len st er rs show ?thesis by (intro conjI)
qed

text \<open>
  The release discipline on the runs that end in success: the events load a document
  only when none is open, render and submit pages of the open document only, destroy
  it after them, and leave no document open.
\<close>

lemma afterEvents_append:
  "afterEvents opened (es @ es') =
     (case afterEvents opened es of None \<Rightarrow> None | Some o' \<Rightarrow> afterEvents o' es')"
  by (induction opened es rule: afterEvents.induct) simp_all

lemma processPage_open:
  assumes "processPage w prompt apiKey fl pdfDoc pageNum s = (r, s')"
    and "afterEvents opened (events s) = Some (Some (name fl))"
  shows "afterEvents opened (events s') = Some (Some (name fl))"
  using assms
  by (auto simp: processPage_def Let_def afterEvents_append split: sum.splits)

lemma processPages_open:
  assumes "processPages w prompt apiKey totalPages fl pdfDoc pgs s = (r, s')"
    and "afterEvents opened (events s) = Some (Some (name fl))"
  shows "afterEvents opened (events s') = Some (Some (name fl))"
  using assms
proof (induction pgs arbitrary: s)
  case Nil
  then show ?case by simp
next
  case (Cons pageNum rest)
  let ?s2 = "s\<lparr>processedCount := processedCount s + 1,
               progress := Some (processedCount s + 1, totalPages,
                                 name fl @ '' (p. '' @ showNat pageNum @ '')'')\<rparr>"
  obtain r1 s3 where step: "processPage w prompt apiKey fl pdfDoc pageNum ?s2 = (r1, s3)"
    by (cases "processPage w prompt apiKey fl pdfDoc pageNum ?s2") auto
  have s3: "afterEvents opened (events s3) = Some (Some (name fl))"
    by (rule processPage_open [OF step]) (simp add: Cons.prems(2))
  show ?case
  proof (cases r1)
    case None
    with Cons.prems(1) step
    have "processPages w prompt apiKey totalPages fl pdfDoc rest s3 = (r, s')"
      by (simp add: Let_def)
    from Cons.IH [OF this s3] show ?thesis .
  next
    case (Some e)
    with Cons.prems(1) step have "s3 = s'" by (simp add: Let_def)
    with s3 show ?thesis by simp
  qed
qed

lemma processFiles_released:
  assumes "processFiles w selectedPages prompt apiKey totalPages files s = (None, s')"
    and "afterEvents opened (events s) = Some None"
  shows "afterEvents opened (events s') = Some None"
  using assms
proof (induction files arbitrary: s)
  case Nil
  then show ?case by simp
next
  case (Cons fl rest)
  show ?case
  proof (cases "selectedPages (name fl)")
    case None
    with Cons.prems(1) have "processFiles w selectedPages prompt apiKey totalPages rest s = (None, s')"
      by simp
    from Cons.IH [OF this Cons.prems(2)] show ?thesis .
  next
    case (Some pgs)
    let ?s1 = "s\<lparr>progress := Some (processedCount s, totalPages,
                                     translate w ''processingPreparing'' @ '' '' @ name fl)\<rparr>"
    from Cons.prems(1) Some obtain pdfDoc where load: "loadPdfDocument w fl = Inr pdfDoc"
      by (auto simp: Let_def split: sum.splits)
    let ?s2 = "?s1\<lparr>events := events ?s1 @ [DocumentLoaded (name fl)]\<rparr>"
    obtain r s3 where pages: "processPages w prompt apiKey totalPages fl pdfDoc (sort pgs) ?s2 = (r, s3)"
      by (cases "processPages w prompt apiKey totalPages fl pdfDoc (sort pgs) ?s2") auto
    from Cons.prems(1) Some load pages have r: "r = None"
      and rest: "processFiles w selectedPages prompt apiKey totalPages rest
                   (s3\<lparr>events := events s3 @ [DocumentDestroyed (name fl)]\<rparr>) = (None, s')"
      by (auto simp: Let_def split: option.splits)
    have "afterEvents opened (events ?s2) = Some (Some (name fl))"
      using Cons.prems(2) by (simp add: afterEvents_append)
    from processPages_open [OF pages this]
    have "afterEvents opened (events (s3\<lparr>events := events s3 @ [DocumentDestroyed (name fl)]\<rparr>)) = Some None"
      by (simp add: afterEvents_append)
    from Cons.IH [OF rest this] show ?thesis .
  qed
qed

lemma documents_released_on_success:
  assumes "handleStartProcessing w cfg files selectedPages prompt s0 = s'"
    and "status s' = StatusSuccess" and "status s0 \<noteq> StatusSuccess"
  shows "afterEvents None (events s') = Some None"
proof -
  define s where "s = s0\<lparr>error := None, results := [], processedCount := 0, events := []\<rparr>"
  define filesToProcess where "filesToProcess = filter (hasPages selectedPages) files"
  define apiKey where "apiKey = (if mode cfg = CustomKey then customKey cfg else orElse (envApiKey w) [])"
  define totalPages where "totalPages = sum_list (map (sizeOfSelection selectedPages) filesToProcess)"
  have run: "filesToProcess \<noteq> [] \<and> apiKey \<noteq> []"
  proof (rule ccontr)
    assume "\<not> (filesToProcess \<noteq> [] \<and> apiKey \<noteq> [])"
    then have "status s' = status s0"
      using assms(1)
      by (auto simp: handleStartProcessing_def Let_def filesToProcess_def apiKey_def)
    with assms(2,3) show False by simp
  qed
  obtain r s2 where loop: "processFiles w selectedPages prompt apiKey totalPages filesToProcess
      (s\<lparr>status := StatusProcessing\<rparr>) = (r, s2)"
    by (cases "processFiles w selectedPages prompt apiKey totalPages filesToProcess
      (s\<lparr>status := StatusProcessing\<rparr>)") auto
  have init: "afterEvents None (events (s\<lparr>status := StatusProcessing\<rparr>)) = Some None"
    by (simp add: s_def)
  show ?thesis
  proof (cases r)
    case None
    from assms(1) run loop None have s': "s' = s2\<lparr>status := StatusSuccess\<rparr>"
      by (simp add: handleStartProcessing_def Let_def s_def filesToProcess_def apiKey_def totalPages_def)
    from processFiles_released [OF loop [unfolded None] init] show ?thesis by (simp add: s')
  next
    case (Some err)
    from assms(1) run loop Some have "status s' = StatusError"
      by (auto simp: handleStartProcessing_def Let_def s_def filesToProcess_def apiKey_def totalPages_def)
    with assms(2) show ?thesis by simp
  qed
qed

text \<open>
  C6, at the scenario of C3. When every page is answered, each document is destroyed
  once, after its last page and before the next document is loaded. When the
  authentication failure leaves the loops, the statement \<^verbatim>\<open>pdfDoc.destroy()\<close> after the
  loop over the pages is not reached: the run loads \<open>a.pdf\<close> and never destroys it, and
  the document is still open when the run ends.
\<close>

theorem document_not_destroyed_on_abort:
  "events answeredRun =
     [DocumentLoaded ''a.pdf'',
      PageRendered ''a.pdf'' 1,
      PageSubmitted ''a.pdf'' 1 (Inr [chairOn ''a.pdf'' 1]),
      PageRendered ''a.pdf'' 2,
      PageSubmitted ''a.pdf'' 2 (Inr [chairOn ''a.pdf'' 2]),
      DocumentDestroyed ''a.pdf'',
      DocumentLoaded ''b.pdf'',
      PageRendered ''b.pdf'' 1,
      PageSubmitted ''b.pdf'' 1 (Inr [chairOn ''b.pdf'' 1]),
      DocumentDestroyed ''b.pdf'']
   \<and> afterEvents None (events answeredRun) = Some None
   \<and> events rejectedRun =
     [DocumentLoaded ''a.pdf'',
      PageRendered ''a.pdf'' 1,
      PageSubmitted ''a.pdf'' 1 (Inr [chairOn ''a.pdf'' 1]),
      PageRendered ''a.pdf'' 2,
      PageSubmitted ''a.pdf'' 2 (Inl (JsError ''AUTH_ERROR: The provided API Key is not valid.''))]
   \<and> count_list (events rejectedRun) (DocumentLoaded ''a.pdf'') = 1
   \<and> count_list (events rejectedRun) (DocumentDestroyed ''a.pdf'') = 0
   \<and> afterEvents None (events rejectedRun) = Some (Some ''a.pdf'')"
  by (simp add: rejected_run answered_run)

end
